theory Spec2Isabelle
  imports Complex_Main "HOL-Library.Char_ord" "HOL-Library.List_Lexorder"
begin

section \<open>Strings\<close>

text \<open>
  Python strings are modelled as \<^typ>\<open>string\<close>, one \<^typ>\<open>char\<close> per code point, so the
  model covers the code points below 256 (Latin-1).  \<open>str.isspace\<close>, \<open>str.strip\<close>,
  \<open>str.lower\<close> and the \<open>in\<close> operator on strings are written out for that range.
\<close>

definition py_isspace :: "char \<Rightarrow> bool" where
  "py_isspace c =
     (let n = (of_char c :: nat)
      in (9 \<le> n \<and> n \<le> 13) \<or> (28 \<le> n \<and> n \<le> 32) \<or> n = 133 \<or> n = 160)"

definition strip :: "string \<Rightarrow> string" where
  "strip s = rev (dropWhile py_isspace (rev (dropWhile py_isspace s)))"

definition lower_char :: "char \<Rightarrow> char" where
  "lower_char c =
     (let n = (of_char c :: nat)
      in if (65 \<le> n \<and> n \<le> 90) \<or> (192 \<le> n \<and> n \<le> 222 \<and> n \<noteq> 215)
         then char_of (n + 32) else c)"

definition lower :: "string \<Rightarrow> string" where
  "lower s = map lower_char s"

fun starts_with :: "string \<Rightarrow> string \<Rightarrow> bool" where
  "starts_with [] ys = True"
| "starts_with (x # xs) [] = False"
| "starts_with (x # xs) (y # ys) = (x = y \<and> starts_with xs ys)"

text \<open>\<open>str_in needle hay\<close> is Python's \<open>needle in hay\<close> on strings.\<close>

fun str_in :: "string \<Rightarrow> string \<Rightarrow> bool" where
  "str_in xs [] = (xs = [])"
| "str_in xs (y # ys) = (starts_with xs (y # ys) \<or> str_in xs ys)"

section \<open>Entitlement ledger (\<open>dynamodb_dal.py\<close>)\<close>

subsection \<open>Product table\<close>

definition PRODUCT_ASSESSMENTS :: "(string \<times> int) list" where
  "PRODUCT_ASSESSMENTS =
     [(''com.ieltsaiprep.academic.writing'', 2),
      (''com.ieltsaiprep.general.writing'', 2),
      (''com.ieltsaiprep.academic.speaking'', 2),
      (''com.ieltsaiprep.general.speaking'', 2),
      (''com.ieltsaiprep.academic.mocktest'', 2),
      (''com.ieltsaiprep.general.mocktest'', 2),
      (''academic_writing'', 2),
      (''general_writing'', 2),
      (''academic_speaking'', 2),
      (''general_speaking'', 2)]"

text \<open>\<open>PRODUCT_ASSESSMENTS.get(product_id, 2)\<close>\<close>

definition product_assessments :: "string \<Rightarrow> int" where
  "product_assessments pid =
     (case map_of PRODUCT_ASSESSMENTS pid of Some n \<Rightarrow> n | None \<Rightarrow> 2)"

subsection \<open>Items and the table\<close>

text \<open>
  An item of the entitlements table.  Instants (\<open>datetime.utcnow()\<close>, stored through
  \<open>isoformat()\<close>) are integers counting microseconds.  A receipt is the dictionary
  handed to \<open>grant_entitlement\<close>, kept as an association list; the stored
  \<open>receipt_data\<close> attribute is its JSON text, modelled by the dictionary itself.
\<close>

type_synonym instant = int
type_synonym receipt = "(string \<times> string) list"

record entitlement =
  user_id :: string
  product_id :: string
  transaction_id :: string
  platform :: string
  assessments_purchased :: int
  assessments_remaining :: int
  purchase_date :: instant
  status :: string
  receipt_verified :: bool
  created_at :: instant
  updated_at :: instant
  receipt_data :: "receipt option"
  last_used_assessment :: "string option"

text \<open>
  The table is the external store.  Its primary key is \<open>(user_id, product_id)\<close>
  (the key \<open>consume_assessment\<close> passes to \<open>update_item\<close>); \<open>TransactionIndex\<close> is a
  secondary index on \<open>transaction_id\<close>.  Every request to the store may raise; which
  requests raise during one ledger operation is an input of that operation
  (\<open>faults\<close>).  The table also records the requests it received.
\<close>

datatype store_call = QueryUser | QueryTransaction | PutItem | UpdateItem

datatype store_error = ClientError store_call

type_synonym faults = "store_call set"

record table =
  items :: "entitlement list"
  calls :: "store_call list"

definition received :: "store_call \<Rightarrow> table \<Rightarrow> table" where
  "received c t = t\<lparr>calls := calls t @ [c]\<rparr>"

definition same_key :: "string \<Rightarrow> string \<Rightarrow> entitlement \<Rightarrow> bool" where
  "same_key uid pid e = (user_id e = uid \<and> product_id e = pid)"

text \<open>
  \<open>table.query(KeyConditionExpression=Key('user_id').eq(user_id))\<close>: the items of one
  partition.  A DynamoDB query returns them in ascending order of the sort key, here
  \<open>product_id\<close>, unless the call asks for the reverse order, which this one does not.
  The order of \<open>items\<close> itself carries no meaning.
\<close>

definition partition_items :: "string \<Rightarrow> table \<Rightarrow> entitlement list" where
  "partition_items uid t = sort_key product_id (filter (\<lambda>e. user_id e = uid) (items t))"

definition table_query :: "faults \<Rightarrow> string \<Rightarrow> table \<Rightarrow> (store_error + entitlement list) \<times> table" where
  "table_query F uid t =
     (if QueryUser \<in> F then (Inl (ClientError QueryUser), received QueryUser t)
      else (Inr (partition_items uid t), received QueryUser t))"

text \<open>\<open>table.query(IndexName='TransactionIndex', ...)\<close>\<close>

definition entitlements_with :: "string \<Rightarrow> table \<Rightarrow> entitlement list" where
  "entitlements_with tx t = filter (\<lambda>e. transaction_id e = tx) (items t)"

definition table_query_index :: "faults \<Rightarrow> string \<Rightarrow> table \<Rightarrow> (store_error + entitlement list) \<times> table" where
  "table_query_index F tx t =
     (if QueryTransaction \<in> F then (Inl (ClientError QueryTransaction), received QueryTransaction t)
      else (Inr (entitlements_with tx t), received QueryTransaction t))"

text \<open>\<open>table.put_item(Item=...)\<close> replaces the item that has the same primary key.\<close>

definition table_put_item :: "faults \<Rightarrow> entitlement \<Rightarrow> table \<Rightarrow> (store_error + unit) \<times> table" where
  "table_put_item F item t =
     (if PutItem \<in> F then (Inl (ClientError PutItem), received PutItem t)
      else (Inr (),
            received PutItem
              (t\<lparr>items := filter (\<lambda>e. \<not> same_key (user_id item) (product_id item) e) (items t)
                            @ [item]\<rparr>)))"

text \<open>
  \<open>table.update_item(Key=..., UpdateExpression='SET assessments_remaining = :remaining,
  #status = :status, updated_at = :updated, last_used_assessment = :assessment_id')\<close>.
  \<open>consume_assessment\<close> only passes the key of an item it has just read, so the case of
  a key that is not in the table does not arise there; the model leaves the table as
  it is in that case.
\<close>

definition set_consumed :: "int \<Rightarrow> string \<Rightarrow> instant \<Rightarrow> string \<Rightarrow> entitlement \<Rightarrow> entitlement" where
  "set_consumed new_remaining new_status now aid e =
     e\<lparr>assessments_remaining := new_remaining, status := new_status,
       updated_at := now, last_used_assessment := Some aid\<rparr>"

definition table_update_item ::
  "faults \<Rightarrow> string \<Rightarrow> string \<Rightarrow> int \<Rightarrow> string \<Rightarrow> instant \<Rightarrow> string \<Rightarrow> table
     \<Rightarrow> (store_error + unit) \<times> table" where
  "table_update_item F uid pid new_remaining new_status now aid t =
     (if UpdateItem \<in> F then (Inl (ClientError UpdateItem), received UpdateItem t)
      else (Inr (),
            received UpdateItem
              (t\<lparr>items := map (\<lambda>e. if same_key uid pid e
                                    then set_consumed new_remaining new_status now aid e
                                    else e) (items t)\<rparr>)))"

subsection \<open>\<open>EntitlementDAL\<close>\<close>

text \<open>
  Every method of the class wraps its body in \<open>try ... except Exception\<close>; the result
  type \<open>store_error + 'a\<close> keeps a place (\<open>Inl\<close>) for an exception that would leave
  the method.
\<close>

definition get_entitlement_by_transaction ::
  "faults \<Rightarrow> string \<Rightarrow> table \<Rightarrow> (store_error + entitlement option) \<times> table" where
  "get_entitlement_by_transaction F tx t =
     (case table_query_index F tx t of
        (Inl err, t') \<Rightarrow> (Inr None, t')
      | (Inr its, t') \<Rightarrow> (Inr (case its of [] \<Rightarrow> None | x # _ \<Rightarrow> Some x), t'))"

definition new_entitlement ::
  "instant \<Rightarrow> string \<Rightarrow> string \<Rightarrow> string \<Rightarrow> string \<Rightarrow> receipt option \<Rightarrow> entitlement" where
  "new_entitlement now uid pid tx plat rd =
     (let assessment_count = product_assessments pid;
          has_receipt = (case rd of None \<Rightarrow> False | Some d \<Rightarrow> d \<noteq> [])
      in \<lparr>user_id = uid, product_id = pid, transaction_id = tx, platform = plat,
          assessments_purchased = assessment_count,
          assessments_remaining = assessment_count,
          purchase_date = now, status = ''active'',
          receipt_verified = has_receipt,
          created_at = now, updated_at = now,
          receipt_data = (if has_receipt then rd else None),
          last_used_assessment = None\<rparr>)"

definition grant_entitlement ::
  "faults \<Rightarrow> instant \<Rightarrow> string \<Rightarrow> string \<Rightarrow> string \<Rightarrow> string \<Rightarrow> receipt option \<Rightarrow> table
     \<Rightarrow> (store_error + bool) \<times> table" where
  "grant_entitlement F now uid pid tx plat rd t =
     (if tx = [] \<or> strip tx = [] then (Inr False, t)
      else
        case get_entitlement_by_transaction F tx t of
          (Inl err, t1) \<Rightarrow> (Inr False, t1)
        | (Inr (Some existing), t1) \<Rightarrow> (Inr False, t1)
        | (Inr None, t1) \<Rightarrow>
            (case table_put_item F (new_entitlement now uid pid tx plat rd) t1 of
               (Inl err, t2) \<Rightarrow> (Inr False, t2)
             | (Inr u, t2) \<Rightarrow> (Inr True, t2)))"

record access =
  has_access :: bool
  access_remaining :: int
  products :: "entitlement list"
  total_products :: nat

definition module_matches :: "string \<Rightarrow> entitlement \<Rightarrow> bool" where
  "module_matches module_type ent =
     (status ent = ''active'' \<and> str_in module_type (lower (product_id ent)))"

text \<open>The loop of \<open>check_entitlement\<close>, with its two accumulators.\<close>

fun check_loop :: "string \<Rightarrow> entitlement list \<Rightarrow> entitlement list \<times> int \<Rightarrow> entitlement list \<times> int" where
  "check_loop module_type [] acc = acc"
| "check_loop module_type (ent # rest) (matching_entitlements, total_remaining) =
     (if module_matches module_type ent
      then check_loop module_type rest
             (matching_entitlements @ [ent], total_remaining + assessments_remaining ent)
      else check_loop module_type rest (matching_entitlements, total_remaining))"

definition no_access :: access where
  "no_access = \<lparr>has_access = False, access_remaining = 0, products = [], total_products = 0\<rparr>"

definition check_entitlement ::
  "faults \<Rightarrow> string \<Rightarrow> string \<Rightarrow> table \<Rightarrow> (store_error + access) \<times> table" where
  "check_entitlement F uid module_type t =
     (case table_query F uid t of
        (Inl err, t') \<Rightarrow> (Inr no_access, t')
      | (Inr entitlements, t') \<Rightarrow>
          (case check_loop module_type entitlements ([], 0) of
             (matching_entitlements, total_remaining) \<Rightarrow>
               (Inr \<lparr>has_access = (total_remaining > 0),
                     access_remaining = total_remaining,
                     products = matching_entitlements,
                     total_products = length matching_entitlements\<rparr>, t')))"

text \<open>
  The loop of \<open>consume_assessment\<close>: the first item, in the order of the query result,
  that is active, matches the module type and has units left.
\<close>

definition consumable :: "string \<Rightarrow> entitlement \<Rightarrow> bool" where
  "consumable module_type ent = (module_matches module_type ent \<and> assessments_remaining ent > 0)"

fun first_consumable :: "string \<Rightarrow> entitlement list \<Rightarrow> entitlement option" where
  "first_consumable module_type [] = None"
| "first_consumable module_type (ent # rest) =
     (if consumable module_type ent then Some ent else first_consumable module_type rest)"

definition consume_assessment ::
  "faults \<Rightarrow> instant \<Rightarrow> string \<Rightarrow> string \<Rightarrow> string \<Rightarrow> table \<Rightarrow> (store_error + bool) \<times> table" where
  "consume_assessment F now uid module_type aid t =
     (case table_query F uid t of
        (Inl err, t') \<Rightarrow> (Inr False, t')
      | (Inr entitlements, t') \<Rightarrow>
          (case first_consumable module_type entitlements of
             None \<Rightarrow> (Inr False, t')
           | Some ent \<Rightarrow>
               (let new_remaining = assessments_remaining ent - 1;
                    new_status = (if new_remaining > 0 then ''active'' else ''consumed'')
                in case table_update_item F uid (product_id ent) new_remaining new_status now aid t' of
                     (Inl err, t2) \<Rightarrow> (Inr False, t2)
                   | (Inr u, t2) \<Rightarrow> (Inr True, t2))))"

subsection \<open>Sequences of ledger operations\<close>

definition empty_table :: table where
  "empty_table = \<lparr>items = [], calls = []\<rparr>"

datatype ledger_op =
    Grant faults instant string string string string "receipt option"
  | Consume faults instant string string string

fun apply_op :: "ledger_op \<Rightarrow> table \<Rightarrow> table" where
  "apply_op (Grant F now uid pid tx plat rd) t = snd (grant_entitlement F now uid pid tx plat rd t)"
| "apply_op (Consume F now uid module_type aid) t = snd (consume_assessment F now uid module_type aid t)"

fun run :: "ledger_op list \<Rightarrow> table \<Rightarrow> table" where
  "run [] t = t"
| "run (op # ops) t = run ops (apply_op op t)"

definition units_ok :: "entitlement \<Rightarrow> bool" where
  "units_ok e =
     (0 \<le> assessments_remaining e
      \<and> (status e = ''consumed'' \<longleftrightarrow> assessments_remaining e = 0)
      \<and> (status e = ''active'' \<longleftrightarrow> assessments_remaining e > 0))"

definition ledger_inv :: "table \<Rightarrow> bool" where
  "ledger_inv t =
     (distinct (map (\<lambda>e. (user_id e, product_id e)) (items t))
      \<and> (\<forall>e \<in> set (items t). units_ok e))"

text \<open>The table after the update that \<open>consume_assessment\<close> requests for the item \<open>ent\<close>.\<close>

definition consumed_items ::
  "instant \<Rightarrow> string \<Rightarrow> string \<Rightarrow> entitlement \<Rightarrow> entitlement list \<Rightarrow> entitlement list" where
  "consumed_items now uid aid ent xs =
     map (\<lambda>e. if same_key uid (product_id ent) e
              then set_consumed (assessments_remaining ent - 1)
                     (if assessments_remaining ent - 1 > 0 then ''active'' else ''consumed'') now aid e
              else e) xs"

text \<open>One unit taken from \<open>ent\<close>, everything else of the record as it was.\<close>

definition decremented :: "instant \<Rightarrow> string \<Rightarrow> entitlement \<Rightarrow> entitlement" where
  "decremented now aid ent =
     ent\<lparr>assessments_remaining := assessments_remaining ent - 1,
         status := (if assessments_remaining ent - 1 > 0 then ''active'' else ''consumed''),
         updated_at := now, last_used_assessment := Some aid\<rparr>"

text \<open>
  The units remaining in the items stored for a user and product, and in the items
  that carry a transaction id.
\<close>

definition units_stored :: "string \<Rightarrow> string \<Rightarrow> table \<Rightarrow> int list" where
  "units_stored uid pid t = map assessments_remaining (filter (same_key uid pid) (items t))"

definition units_of_transaction :: "string \<Rightarrow> table \<Rightarrow> int list" where
  "units_of_transaction tx t = map assessments_remaining (entitlements_with tx t)"

definition units_by_purchase :: "table \<Rightarrow> (instant \<times> int) list" where
  "units_by_purchase t = map (\<lambda>e. (purchase_date e, assessments_remaining e)) (items t)"

section \<open>Regional router (\<open>gemini_regional_router.py\<close>)\<close>

subsection \<open>Catalog and country mapping\<close>

record region_info =
  continent :: string
  location :: string
  latency_base :: int
  health :: string

definition VERTEX_AI_REGIONS :: "(string \<times> region_info) list" where
  "VERTEX_AI_REGIONS =
     [
      (''us-central1'', \<lparr>continent = ''North America'', location = ''Iowa, USA'', latency_base = 50, health = ''healthy''\<rparr>),
      (''us-east4'', \<lparr>continent = ''North America'', location = ''Virginia, USA'', latency_base = 55, health = ''healthy''\<rparr>),
      (''southamerica-east1'', \<lparr>continent = ''South America'', location = ''S'' @ [char_of (195::nat)] @ [char_of (163::nat)] @ ''o Paulo, Brazil'', latency_base = 100, health = ''healthy''\<rparr>),
      (''europe-west1'', \<lparr>continent = ''Europe'', location = ''Belgium'', latency_base = 45, health = ''healthy''\<rparr>),
      (''europe-west2'', \<lparr>continent = ''Europe'', location = ''London, UK'', latency_base = 50, health = ''healthy''\<rparr>),
      (''europe-west3'', \<lparr>continent = ''Europe'', location = ''Frankfurt, Germany'', latency_base = 48, health = ''healthy''\<rparr>),
      (''europe-west4'', \<lparr>continent = ''Europe'', location = ''Netherlands'', latency_base = 47, health = ''healthy''\<rparr>),
      (''europe-west8'', \<lparr>continent = ''Europe'', location = ''Milan, Italy'', latency_base = 52, health = ''healthy''\<rparr>),
      (''europe-west9'', \<lparr>continent = ''Europe'', location = ''Paris, France'', latency_base = 46, health = ''healthy''\<rparr>),
      (''europe-north1'', \<lparr>continent = ''Europe'', location = ''Finland'', latency_base = 55, health = ''healthy''\<rparr>),
      (''europe-southwest1'', \<lparr>continent = ''Europe'', location = ''Madrid, Spain'', latency_base = 54, health = ''healthy''\<rparr>),
      (''asia-southeast1'', \<lparr>continent = ''Asia'', location = ''Singapore'', latency_base = 35, health = ''healthy''\<rparr>),
      (''asia-northeast1'', \<lparr>continent = ''Asia'', location = ''Tokyo, Japan'', latency_base = 40, health = ''healthy''\<rparr>),
      (''asia-northeast3'', \<lparr>continent = ''Asia'', location = ''Seoul, South Korea'', latency_base = 42, health = ''healthy''\<rparr>),
      (''asia-south1'', \<lparr>continent = ''Asia'', location = ''Mumbai, India'', latency_base = 60, health = ''healthy''\<rparr>),
      (''asia-east1'', \<lparr>continent = ''Asia'', location = ''Taiwan'', latency_base = 45, health = ''healthy''\<rparr>),
      (''asia-east2'', \<lparr>continent = ''Asia'', location = ''Hong Kong'', latency_base = 43, health = ''healthy''\<rparr>),
      (''me-west1'', \<lparr>continent = ''Middle East'', location = ''Tel Aviv, Israel'', latency_base = 70, health = ''healthy''\<rparr>),
      (''me-central1'', \<lparr>continent = ''Middle East'', location = ''Doha, Qatar'', latency_base = 75, health = ''healthy''\<rparr>),
      (''australia-southeast1'', \<lparr>continent = ''Australia'', location = ''Sydney, Australia'', latency_base = 120, health = ''healthy''\<rparr>),
      (''africa-south1'', \<lparr>continent = ''Africa'', location = ''Johannesburg, South Africa'', latency_base = 150, health = ''healthy''\<rparr>)]"

definition COUNTRY_TO_REGION :: "(string \<times> string) list" where
  "COUNTRY_TO_REGION =
     [
      (''US'', ''us-central1''), (''CA'', ''us-central1''), (''MX'', ''us-central1''),
      (''BR'', ''southamerica-east1''), (''AR'', ''southamerica-east1''), (''CL'', ''southamerica-east1''),
      (''CO'', ''southamerica-east1''), (''PE'', ''southamerica-east1''), (''GB'', ''europe-west2''),
      (''IE'', ''europe-west2''), (''FR'', ''europe-west9''), (''DE'', ''europe-west3''),
      (''NL'', ''europe-west4''), (''BE'', ''europe-west1''), (''IT'', ''europe-west8''),
      (''ES'', ''europe-southwest1''), (''PT'', ''europe-southwest1''), (''CH'', ''europe-west3''),
      (''AT'', ''europe-west3''), (''SE'', ''europe-north1''), (''NO'', ''europe-north1''),
      (''DK'', ''europe-north1''), (''FI'', ''europe-north1''), (''PL'', ''europe-west3''),
      (''CZ'', ''europe-west3''), (''HU'', ''europe-west3''), (''RO'', ''europe-west3''),
      (''GR'', ''europe-west8''), (''TR'', ''europe-west4''), (''IL'', ''me-west1''),
      (''AE'', ''me-central1''), (''SA'', ''me-central1''), (''QA'', ''me-central1''),
      (''KW'', ''me-central1''), (''BH'', ''me-central1''), (''OM'', ''me-central1''),
      (''JO'', ''me-west1''), (''LB'', ''me-west1''), (''CN'', ''asia-east1''),
      (''JP'', ''asia-northeast1''), (''KR'', ''asia-northeast3''), (''TW'', ''asia-east1''),
      (''HK'', ''asia-east2''), (''MO'', ''asia-east2''), (''SG'', ''asia-southeast1''),
      (''MY'', ''asia-southeast1''), (''TH'', ''asia-southeast1''), (''VN'', ''asia-southeast1''),
      (''PH'', ''asia-southeast1''), (''ID'', ''asia-southeast1''), (''KH'', ''asia-southeast1''),
      (''LA'', ''asia-southeast1''), (''MM'', ''asia-southeast1''), (''BN'', ''asia-southeast1''),
      (''IN'', ''asia-south1''), (''PK'', ''asia-south1''), (''BD'', ''asia-south1''),
      (''LK'', ''asia-south1''), (''NP'', ''asia-south1''), (''AU'', ''australia-southeast1''),
      (''NZ'', ''australia-southeast1''), (''ZA'', ''africa-south1''), (''EG'', ''africa-south1''),
      (''NG'', ''africa-south1''), (''KE'', ''africa-south1''), (''MA'', ''europe-southwest1''),
      (''TN'', ''europe-southwest1''), (''DZ'', ''europe-southwest1''), (''RU'', ''europe-north1''),
      (''UA'', ''europe-west3''), (''BY'', ''europe-west3''), (''KZ'', ''asia-south1''),
      (''UZ'', ''asia-south1''), (''GE'', ''me-west1''), (''AZ'', ''me-west1''),
      (''AM'', ''me-west1''), (''IQ'', ''me-central1''), (''IR'', ''me-central1''),
      (''AF'', ''asia-south1''), (''ET'', ''africa-south1''), (''GH'', ''africa-south1''),
      (''TZ'', ''africa-south1''), (''UG'', ''africa-south1'')]"

text \<open>
  \<open>str.upper\<close> on the code points below 256.  The upper-case forms of the code points
  181 and 255 lie above 255; neither they nor the characters themselves occur in a key
  of \<open>COUNTRY_TO_REGION\<close>, and the model leaves the two characters as they are.
\<close>

definition upper_char :: "char \<Rightarrow> string" where
  "upper_char c =
     (let n = (of_char c :: nat)
      in if (97 \<le> n \<and> n \<le> 122) \<or> (224 \<le> n \<and> n \<le> 254 \<and> n \<noteq> 247)
         then [char_of (n - 32)]
         else if n = 223 then ''SS'' else [c])"

definition upper :: "string \<Rightarrow> string" where
  "upper s = concat (map upper_char s)"

subsection \<open>Health state\<close>

text \<open>
  Latencies are Python floats; the model keeps them as reals and no property below
  depends on their value.  \<open>thirty_minutes\<close> is \<open>timedelta(minutes=30)\<close> in
  microseconds.
\<close>

record region_health_entry =
  health_status :: string
  last_success :: instant
  failure_count :: int
  latency_ms :: real

type_synonym region_health = "string \<rightharpoonup> region_health_entry"

definition thirty_minutes :: int where
  "thirty_minutes = 30 * 60 * 1000000"

text \<open>
  \<open>_initialize_health_status\<close>, called by the constructor.  It reads the clock once for
  every region; \<open>clock region\<close> is the instant read for \<open>region\<close>.
\<close>

definition initialize_health_status :: "(string \<Rightarrow> instant) \<Rightarrow> region_health" where
  "initialize_health_status clock =
     map_of (map (\<lambda>(region, info).
                    (region, \<lparr>health_status = ''healthy'', last_success = clock region,
                              failure_count = 0, latency_ms = real_of_int (latency_base info)\<rparr>))
                 VERTEX_AI_REGIONS)"

text \<open>The health table of a router constructed at instant 0.\<close>

definition started_router :: region_health where
  "started_router = initialize_health_status (\<lambda>region. 0)"

definition is_region_healthy :: "instant \<Rightarrow> string \<Rightarrow> region_health \<Rightarrow> bool" where
  "is_region_healthy now region rh =
     (case rh region of
        None \<Rightarrow> False
      | Some h \<Rightarrow>
          if failure_count h \<ge> 5 then False
          else if now - last_success h > thirty_minutes then False
          else health_status h = ''healthy'')"

definition mark_success :: "instant \<Rightarrow> string \<Rightarrow> real \<Rightarrow> region_health \<Rightarrow> region_health" where
  "mark_success now region latency rh =
     (case rh region of
        None \<Rightarrow> rh
      | Some h \<Rightarrow>
          rh(region \<mapsto> h\<lparr>health_status := ''healthy'', last_success := now,
                           failure_count := 0, latency_ms := latency\<rparr>))"

definition mark_failure :: "string \<Rightarrow> string \<Rightarrow> region_health \<Rightarrow> region_health" where
  "mark_failure region error rh =
     (case rh region of
        None \<Rightarrow> rh
      | Some h \<Rightarrow>
          (let h1 = h\<lparr>failure_count := failure_count h + 1\<rparr>
           in if failure_count h1 \<ge> 5
              then rh(region \<mapsto> h1\<lparr>health_status := ''unhealthy''\<rparr>)
              else rh(region \<mapsto> h1)))"

subsection \<open>Region selection\<close>

datatype py_error = KeyError string | IndexError

text \<open>\<open>self.VERTEX_AI_REGIONS[region]\<close> raises \<open>KeyError\<close> for a region outside the catalog.\<close>

definition region_entry :: "string \<Rightarrow> py_error + string \<times> region_info" where
  "region_entry region =
     (case map_of VERTEX_AI_REGIONS region of
        None \<Rightarrow> Inl (KeyError region)
      | Some info \<Rightarrow> Inr (region, info))"

text \<open>\<open>_detect_region_from_ip\<close> is a stub that returns \<open>None\<close>.\<close>

definition detect_region_from_ip :: "string \<Rightarrow> string option" where
  "detect_region_from_ip ip_address = None"

text \<open>
  \<open>random.choice(seq)\<close> with the generator's draw \<open>rnd\<close> as an input; it raises
  \<open>IndexError\<close> on an empty sequence.
\<close>

definition random_choice :: "nat \<Rightarrow> 'a list \<Rightarrow> py_error + 'a" where
  "random_choice rnd xs = (if xs = [] then Inl IndexError else Inr (xs ! (rnd mod length xs)))"

definition default_region :: string where
  "default_region = ''us-central1''"

definition healthy_regions :: "instant \<Rightarrow> region_health \<Rightarrow> string list" where
  "healthy_regions now rh = filter (\<lambda>r. is_region_healthy now r rh) (map fst VERTEX_AI_REGIONS)"

text \<open>The five priorities of \<open>get_optimal_region\<close>, each yielding the region it returns, if any.\<close>

definition priority1 :: "instant \<Rightarrow> region_health \<Rightarrow> string option \<Rightarrow> string option" where
  "priority1 now rh preferred_region =
     (case preferred_region of
        None \<Rightarrow> None
      | Some p \<Rightarrow>
          if p \<noteq> [] \<and> p \<in> set (map fst VERTEX_AI_REGIONS) \<and> is_region_healthy now p rh
          then Some p else None)"

definition priority2 :: "instant \<Rightarrow> region_health \<Rightarrow> string option \<Rightarrow> string option" where
  "priority2 now rh country_code =
     (case country_code of
        None \<Rightarrow> None
      | Some cc \<Rightarrow>
          if cc = [] then None
          else (case map_of COUNTRY_TO_REGION (upper cc) of
                  None \<Rightarrow> None
                | Some mapped_region \<Rightarrow>
                    if mapped_region \<noteq> [] \<and> is_region_healthy now mapped_region rh
                    then Some mapped_region else None))"

definition priority3 :: "instant \<Rightarrow> region_health \<Rightarrow> string option \<Rightarrow> string option" where
  "priority3 now rh ip_address =
     (case ip_address of
        None \<Rightarrow> None
      | Some ip \<Rightarrow>
          if ip = [] then None
          else (case detect_region_from_ip ip of
                  None \<Rightarrow> None
                | Some detected_region \<Rightarrow>
                    if detected_region \<noteq> [] \<and> is_region_healthy now detected_region rh
                    then Some detected_region else None))"

text \<open>
  The conditions of the resolution order in the words of the specification: a preferred
  region that is in the catalog and healthy, the healthy region the country code maps
  to, a healthy region derived from the IP address.
\<close>

definition preferred_ok :: "instant \<Rightarrow> region_health \<Rightarrow> string option \<Rightarrow> string \<Rightarrow> bool" where
  "preferred_ok now rh preferred_region r =
     (preferred_region = Some r \<and> r \<in> fst ` set VERTEX_AI_REGIONS \<and> is_region_healthy now r rh)"

definition country_ok :: "instant \<Rightarrow> region_health \<Rightarrow> string option \<Rightarrow> string \<Rightarrow> bool" where
  "country_ok now rh country_code r =
     (\<exists>cc. country_code = Some cc \<and> map_of COUNTRY_TO_REGION (upper cc) = Some r
           \<and> is_region_healthy now r rh)"

definition ip_ok :: "instant \<Rightarrow> region_health \<Rightarrow> string option \<Rightarrow> string \<Rightarrow> bool" where
  "ip_ok now rh ip_address r =
     (\<exists>ip. ip_address = Some ip \<and> detect_region_from_ip ip = Some r \<and> is_region_healthy now r rh)"

definition get_optimal_region ::
  "instant \<Rightarrow> nat \<Rightarrow> region_health \<Rightarrow> string option \<Rightarrow> string option \<Rightarrow> string option
     \<Rightarrow> py_error + string \<times> region_info" where
  "get_optimal_region now rnd rh country_code ip_address preferred_region =
     (case priority1 now rh preferred_region of
        Some p \<Rightarrow> region_entry p
      | None \<Rightarrow>
     (case priority2 now rh country_code of
        Some mapped_region \<Rightarrow> region_entry mapped_region
      | None \<Rightarrow>
     (case priority3 now rh ip_address of
        Some detected_region \<Rightarrow> region_entry detected_region
      | None \<Rightarrow>
          if is_region_healthy now default_region rh then region_entry default_region
          else if healthy_regions now rh \<noteq> []
          then (case random_choice rnd (healthy_regions now rh) of
                  Inl err \<Rightarrow> Inl err
                | Inr fallback \<Rightarrow> region_entry fallback)
          else region_entry default_region)))"

section \<open>Live session (\<open>gemini_live_audio_service_aws.py\<close>)\<close>

subsection \<open>Workflow manager interface\<close>

text \<open>
  \<open>GeminiLiveSessionAWS\<close> drives an \<open>IELTSWorkflowManager\<close>, whose module
  (\<open>ielts_workflow_manager\<close>) is outside the sources modelled here.  The four operations
  the session calls are parameters of the model, over an arbitrary manager state \<open>'w\<close>:
  \<open>should_transition()\<close>, \<open>state.current_part\<close>, \<open>update_state_for_part(n)\<close> and
  \<open>get_assessment_summary()\<close>.  Of a summary the session reads
  \<open>summary.get('duration_seconds', 0)\<close> and \<open>summary['cost_breakdown']['total']\<close>.
\<close>

record part_config =
  config_model :: string
  config_prompt :: string

record summary =
  duration_seconds :: "real option"
  cost_breakdown_total :: real

record 'w workflow_ops =
  should_transition :: "'w \<Rightarrow> bool"
  current_part :: "'w \<Rightarrow> int"
  update_state_for_part :: "int \<Rightarrow> 'w \<Rightarrow> part_config \<times> 'w"
  get_assessment_summary :: "'w \<Rightarrow> summary"

subsection \<open>Session state and effects\<close>

text \<open>
  What leaves the session is kept as a list of events: a message posted through the
  API Gateway client (\<open>post_to_connection\<close>, which may raise), a call of the
  \<open>on_text_response\<close> callback, the cancellation of the response task, and the closing
  and opening of a remote Gemini session (identified by a number).  The regional router
  is the process-wide singleton; its health table is carried in the state.
\<close>

datatype ws_message =
    ConnectionEstablished string "string option"
  | ConnectionFailed
  | ModelSwitched string
  | TimeoutWarning
  | PartTransition int string
  | AssessmentComplete summary

datatype event =
    WsPosted ws_message
  | WsPostFailed ws_message
  | TextCallback int
  | TaskCancelled
  | RemoteClosed nat
  | RemoteOpened nat string string

datatype remote_call = PostToConnection | CloseSession | OpenSession

datatype remote_error = RemoteError remote_call

record 'w live_session =
  model_id :: string
  system_instruction :: string
  workflow_manager :: 'w
  on_text_response :: bool
  websocket_connection_id :: "string option"
  session_region :: "string option"
  regional_router :: bool
  remote_session :: "nat option"
  is_connected :: bool
  response_task :: bool
  messages_in_current_part :: int
  start_time :: instant
  lambda_timeout_warning_seconds :: int
  apigw_client :: bool
  router_health :: region_health
  trace :: "event list"

definition emit :: "event \<Rightarrow> 'w live_session \<Rightarrow> 'w live_session" where
  "emit ev s = s\<lparr>trace := trace s @ [ev]\<rparr>"

definition truthy :: "string option \<Rightarrow> bool" where
  "truthy v = (case v of None \<Rightarrow> False | Some x \<Rightarrow> x \<noteq> [])"

definition send_websocket_message ::
  "remote_call set \<Rightarrow> ws_message \<Rightarrow> 'w live_session \<Rightarrow> 'w live_session" where
  "send_websocket_message F data s =
     (if \<not> apigw_client s \<or> \<not> truthy (websocket_connection_id s) then s
      else if PostToConnection \<in> F then emit (WsPostFailed data) s
      else emit (WsPosted data) s)"

text \<open>
  \<open>_check_lambda_timeout\<close>: \<open>(datetime.utcnow() - self.start_time).total_seconds()\<close>
  against the ceiling in seconds, here in microseconds.
\<close>

definition check_lambda_timeout :: "instant \<Rightarrow> 'w live_session \<Rightarrow> bool" where
  "check_lambda_timeout now s = (now - start_time s > lambda_timeout_warning_seconds s * 1000000)"

text \<open>
  The constructor, at instant \<open>now\<close>.  \<open>endpoint\<close> says whether \<open>APIGW_ENDPOINT\<close> is set
  and the API Gateway client could be built; \<open>rh\<close> is the router's health table.
\<close>

definition new_session ::
  "instant \<Rightarrow> string \<Rightarrow> string \<Rightarrow> 'w \<Rightarrow> bool \<Rightarrow> string option \<Rightarrow> string option \<Rightarrow> bool \<Rightarrow> bool
     \<Rightarrow> region_health \<Rightarrow> 'w live_session" where
  "new_session now model prompt wm on_text connection_id region_name has_router endpoint rh =
     \<lparr>model_id = model, system_instruction = prompt, workflow_manager = wm,
      on_text_response = on_text, websocket_connection_id = connection_id,
      session_region = region_name, regional_router = has_router,
      remote_session = None, is_connected = False, response_task = False,
      messages_in_current_part = 0, start_time = now,
      lambda_timeout_warning_seconds = 840,
      apigw_client = (truthy connection_id \<and> endpoint),
      router_health = rh, trace = []\<rparr>"

text \<open>\<open>connect\<close>; \<open>fresh\<close> identifies the remote session a successful open returns.\<close>

definition connect ::
  "remote_call set \<Rightarrow> nat \<Rightarrow> 'w live_session \<Rightarrow> (remote_error + unit) \<times> 'w live_session" where
  "connect F fresh s =
     (if OpenSession \<in> F
      then (Inl (RemoteError OpenSession), send_websocket_message F ConnectionFailed s)
      else
        let s1 = emit (RemoteOpened fresh (model_id s) (system_instruction s))
                   (s\<lparr>remote_session := Some fresh\<rparr>);
            s2 = s1\<lparr>is_connected := True, response_task := True\<rparr>
        in (Inr (), send_websocket_message F (ConnectionEstablished (model_id s) (session_region s)) s2))"

text \<open>\<open>switch_model\<close>, with \<open>fresh\<close> as in \<open>connect\<close>.\<close>

definition switch_model ::
  "remote_call set \<Rightarrow> nat \<Rightarrow> string \<Rightarrow> string \<Rightarrow> 'w live_session
     \<Rightarrow> (remote_error + unit) \<times> 'w live_session" where
  "switch_model F fresh new_model new_prompt s =
     (if \<not> is_connected s then (Inr (), s)
      else
        let s1 = s\<lparr>system_instruction := new_prompt\<rparr>
        in if remote_session s1 \<noteq> None \<and> CloseSession \<in> F
           then (Inl (RemoteError CloseSession), s1)
           else
             let s2 = (case remote_session s1 of None \<Rightarrow> s1 | Some h \<Rightarrow> emit (RemoteClosed h) s1);
                 s3 = s2\<lparr>model_id := new_model\<rparr>
             in if OpenSession \<in> F then (Inl (RemoteError OpenSession), s3)
                else
                  let s4 = emit (RemoteOpened fresh new_model new_prompt)
                             (s3\<lparr>remote_session := Some fresh\<rparr>);
                      s5 = s4\<lparr>messages_in_current_part := 0\<rparr>
                  in (Inr (), send_websocket_message F (ModelSwitched new_model) s5))"

definition check_and_transition_parts ::
  "'w workflow_ops \<Rightarrow> remote_call set \<Rightarrow> instant \<Rightarrow> nat \<Rightarrow> 'w live_session
     \<Rightarrow> (remote_error + bool) \<times> 'w live_session" where
  "check_and_transition_parts W F now fresh s =
     (if check_lambda_timeout now s
      then (Inr False, send_websocket_message F TimeoutWarning s)
      else if should_transition W (workflow_manager s)
      then
        (let next_part = current_part W (workflow_manager s) + 1
         in if next_part \<le> 3
            then
              (case update_state_for_part W next_part (workflow_manager s) of
                 (config, wm) \<Rightarrow>
                   (case switch_model F fresh (config_model config) (config_prompt config)
                           (s\<lparr>workflow_manager := wm\<rparr>) of
                      (Inl err, s1) \<Rightarrow> (Inl err, s1)
                    | (Inr u, s1) \<Rightarrow>
                        (let s2 = (if on_text_response s1 then emit (TextCallback next_part) s1 else s1)
                         in (Inr True,
                             send_websocket_message F
                               (PartTransition next_part (config_model config)) s2))))
            else (Inr False, s))
      else (Inr False, s))"

text \<open>\<open>close\<close>, at instant \<open>now\<close> (read by \<open>mark_success\<close>).\<close>

definition close_latency :: "summary \<Rightarrow> real" where
  "close_latency sm =
     (let assessment_duration = (case duration_seconds sm of None \<Rightarrow> 0 | Some d \<Rightarrow> d)
      in if assessment_duration > 0 then (assessment_duration * 1000) / 10 else 100)"

definition close ::
  "'w workflow_ops \<Rightarrow> remote_call set \<Rightarrow> instant \<Rightarrow> 'w live_session
     \<Rightarrow> (remote_error + unit) \<times> 'w live_session" where
  "close W F now s =
     (case remote_session s of
        None \<Rightarrow> (Inr (), s\<lparr>is_connected := False\<rparr>)
      | Some h \<Rightarrow>
          (let sm = get_assessment_summary W (workflow_manager s);
               s1 = (case session_region s of
                       None \<Rightarrow> s
                     | Some r \<Rightarrow>
                         if regional_router s \<and> r \<noteq> []
                         then s\<lparr>router_health := mark_success now r (close_latency sm) (router_health s)\<rparr>
                         else s);
               s2 = send_websocket_message F (AssessmentComplete sm) s1;
               s3 = (if response_task s2 then emit TaskCancelled s2 else s2)
           in if CloseSession \<in> F then (Inl (RemoteError CloseSession), s3)
              else (Inr (), (emit (RemoteClosed h) s3)\<lparr>is_connected := False\<rparr>)))"

subsection \<open>A workflow manager for concrete runs\<close>

text \<open>
  A manager whose state is the current part; it asks for a transition at every check
  and reports a ten-minute assessment.
\<close>

definition eager_workflow :: "int workflow_ops" where
  "eager_workflow =
     \<lparr>should_transition = (\<lambda>part. True),
      current_part = (\<lambda>part. part),
      update_state_for_part =
        (\<lambda>n part. (\<lparr>config_model = ''gemini-2.5-flash-lite'', config_prompt = ''part prompt''\<rparr>, n)),
      get_assessment_summary =
        (\<lambda>part. \<lparr>duration_seconds = Some 600, cost_breakdown_total = 0\<rparr>)\<rparr>"

text \<open>
  A session for a caller that passes callbacks and no WebSocket connection id, connected
  to remote session 1 at instant 0 in region \<open>us-central1\<close>.
\<close>

definition callback_session :: "int live_session" where
  "callback_session =
     snd (connect {} 1
            (new_session 0 ''gemini-2.5-flash-lite'' ''part 1 prompt'' 1 True None
               (Some ''us-central1'') True False started_router))"

text \<open>The same for a caller on WebSocket connection \<open>conn-1\<close>.\<close>

definition websocket_session :: "int live_session" where
  "websocket_session =
     snd (connect {} 1
            (new_session 0 ''gemini-2.5-flash-lite'' ''part 1 prompt'' 1 False (Some ''conn-1'')
               (Some ''us-central1'') True True started_router))"

section \<open>Properties of the entitlement ledger\<close>

subsection \<open>Auxiliary facts\<close>

lemma product_assessments_2: "product_assessments pid = 2"
  by (simp add: product_assessments_def PRODUCT_ASSESSMENTS_def)

lemma grant_entitlement_returns: "\<exists>b. fst (grant_entitlement F now uid pid tx plat rd t) = Inr b"
  by (auto simp: grant_entitlement_def get_entitlement_by_transaction_def table_query_index_def
      table_put_item_def split: list.splits)

lemma grant_entitlement_items:
  "items (snd (grant_entitlement F now uid pid tx plat rd t)) =
     (if fst (grant_entitlement F now uid pid tx plat rd t) = Inr True
      then filter (\<lambda>x. \<not> same_key uid pid x) (items t) @ [new_entitlement now uid pid tx plat rd]
      else items t)"
  by (auto simp: grant_entitlement_def get_entitlement_by_transaction_def table_query_index_def
      table_put_item_def received_def new_entitlement_def Let_def same_key_def split: list.splits)

lemma first_consumable_Some:
  "first_consumable m xs = Some ent \<Longrightarrow> ent \<in> set xs \<and> consumable m ent"
  by (induction xs) (auto split: if_splits)

lemma first_consumable_split:
  "first_consumable m xs = Some ent \<longleftrightarrow>
     (\<exists>pre post. xs = pre @ ent # post \<and> consumable m ent \<and> (\<forall>x \<in> set pre. \<not> consumable m x))"
proof (induction xs)
  case Nil
  then show ?case by simp
next
  case (Cons a xs)
  show ?case
  proof (cases "consumable m a")
    case True
    have "(\<exists>pre post. a # xs = pre @ ent # post \<and> consumable m ent \<and> (\<forall>x \<in> set pre. \<not> consumable m x))
          \<longleftrightarrow> a = ent"
    proof
      assume "\<exists>pre post. a # xs = pre @ ent # post \<and> consumable m ent \<and> (\<forall>x \<in> set pre. \<not> consumable m x)"
      then obtain pre post where p: "a # xs = pre @ ent # post" "\<forall>x \<in> set pre. \<not> consumable m x"
        by blast
      show "a = ent"
      proof (cases pre)
        case Nil
        with p show ?thesis by simp
      next
        case (Cons b pre')
        with p True show ?thesis by auto
      qed
    next
      assume "a = ent"
      with True have "a # xs = [] @ ent # xs \<and> consumable m ent \<and> (\<forall>x \<in> set []. \<not> consumable m x)"
        by simp
      then show "\<exists>pre post. a # xs = pre @ ent # post \<and> consumable m ent \<and> (\<forall>x \<in> set pre. \<not> consumable m x)"
        by blast
    qed
    with True show ?thesis by auto
  next
    case False
    have "(\<exists>pre post. a # xs = pre @ ent # post \<and> consumable m ent \<and> (\<forall>x \<in> set pre. \<not> consumable m x))
          \<longleftrightarrow> (\<exists>pre post. xs = pre @ ent # post \<and> consumable m ent \<and> (\<forall>x \<in> set pre. \<not> consumable m x))"
      (is "?L \<longleftrightarrow> ?R")
    proof
      assume ?L
      then obtain pre post where p: "a # xs = pre @ ent # post" "consumable m ent"
          "\<forall>x \<in> set pre. \<not> consumable m x" by blast
      show ?R
      proof (cases pre)
        case Nil
        with p False show ?thesis by simp
      next
        case (Cons b pre')
        with p have "xs = pre' @ ent # post \<and> consumable m ent \<and> (\<forall>x \<in> set pre'. \<not> consumable m x)"
          by simp
        then show ?thesis by blast
      qed
    next
      assume ?R
      then obtain pre post where p: "xs = pre @ ent # post" "consumable m ent"
          "\<forall>x \<in> set pre. \<not> consumable m x" by blast
      with False have "a # xs = (a # pre) @ ent # post \<and> consumable m ent
            \<and> (\<forall>x \<in> set (a # pre). \<not> consumable m x)" by simp
      then show ?L by blast
    qed
    with False Cons.IH show ?thesis by simp
  qed
qed

lemma partition_items_set: "set (partition_items uid t) = {e \<in> set (items t). user_id e = uid}"
  by (auto simp: partition_items_def)

lemma partition_items_sorted: "sorted (map product_id (partition_items uid t))"
  by (simp add: partition_items_def)


lemma consume_assessment_returns: "\<exists>b. fst (consume_assessment F now uid m aid t) = Inr b"
  by (auto simp: consume_assessment_def table_query_def table_update_item_def Let_def
      split: option.splits)

lemma consume_assessment_items:
  "items (snd (consume_assessment F now uid m aid t)) =
     (if fst (consume_assessment F now uid m aid t) = Inr True
      then (case first_consumable m (partition_items uid t) of
              None \<Rightarrow> items t
            | Some ent \<Rightarrow> consumed_items now uid aid ent (items t))
      else items t)"
  by (auto simp: consume_assessment_def table_query_def table_update_item_def Let_def received_def
      consumed_items_def split: option.splits)

lemma consume_assessment_True:
  "fst (consume_assessment F now uid m aid t) = Inr True \<longleftrightarrow>
     QueryUser \<notin> F \<and> UpdateItem \<notin> F \<and> first_consumable m (partition_items uid t) \<noteq> None"
  by (auto simp: consume_assessment_def table_query_def table_update_item_def Let_def received_def
      split: option.splits)

lemma units_ok_new_entitlement: "units_ok (new_entitlement now uid pid tx plat rd)"
  by (simp add: units_ok_def new_entitlement_def product_assessments_2 Let_def)

lemma new_entitlement_key:
  "user_id (new_entitlement now uid pid tx plat rd) = uid"
  "product_id (new_entitlement now uid pid tx plat rd) = pid"
  by (simp_all add: new_entitlement_def Let_def)

lemma units_ok_set_consumed:
  "0 < assessments_remaining ent \<Longrightarrow>
   units_ok (set_consumed (assessments_remaining ent - 1)
              (if assessments_remaining ent - 1 > 0 then ''active'' else ''consumed'') now aid e)"
  by (auto simp: units_ok_def set_consumed_def)

lemma distinct_keys_put:
  "distinct (map (\<lambda>e. (user_id e, product_id e)) xs) \<Longrightarrow>
   user_id item = uid \<Longrightarrow> product_id item = pid \<Longrightarrow>
   distinct (map (\<lambda>e. (user_id e, product_id e)) (filter (\<lambda>x. \<not> same_key uid pid x) xs @ [item]))"
  by (auto simp: same_key_def distinct_map_filter)

lemma consumed_items_keys:
  "map (\<lambda>e. (user_id e, product_id e)) (consumed_items now uid aid ent xs)
   = map (\<lambda>e. (user_id e, product_id e)) xs"
  by (induction xs) (auto simp: consumed_items_def set_consumed_def)

lemma grant_preserves_inv:
  assumes "ledger_inv t"
  shows "ledger_inv (snd (grant_entitlement F now uid pid tx plat rd t))"
proof (cases "fst (grant_entitlement F now uid pid tx plat rd t) = Inr True")
  case True
  then have it: "items (snd (grant_entitlement F now uid pid tx plat rd t))
      = filter (\<lambda>x. \<not> same_key uid pid x) (items t) @ [new_entitlement now uid pid tx plat rd]"
    by (simp add: grant_entitlement_items)
  from assms have d: "distinct (map (\<lambda>e. (user_id e, product_id e)) (items t))"
    and u: "\<forall>e \<in> set (items t). units_ok e" by (simp_all add: ledger_inv_def)
  have "distinct (map (\<lambda>e. (user_id e, product_id e))
          (filter (\<lambda>x. \<not> same_key uid pid x) (items t) @ [new_entitlement now uid pid tx plat rd]))"
    by (rule distinct_keys_put [OF d new_entitlement_key])
  moreover have "\<forall>e \<in> set (filter (\<lambda>x. \<not> same_key uid pid x) (items t) @ [new_entitlement now uid pid tx plat rd]). units_ok e"
    using u units_ok_new_entitlement by auto
  ultimately show ?thesis unfolding ledger_inv_def it by blast
next
  case False
  then have "items (snd (grant_entitlement F now uid pid tx plat rd t)) = items t"
    by (simp add: grant_entitlement_items)
  with assms show ?thesis by (simp add: ledger_inv_def)
qed

lemma consume_preserves_inv:
  assumes "ledger_inv t"
  shows "ledger_inv (snd (consume_assessment F now uid m aid t))"
proof (cases "fst (consume_assessment F now uid m aid t) = Inr True")
  case True
  then obtain ent where fc: "first_consumable m (partition_items uid t) = Some ent"
    by (auto simp: consume_assessment_True)
  with True have it: "items (snd (consume_assessment F now uid m aid t))
      = consumed_items now uid aid ent (items t)"
    by (simp add: consume_assessment_items)
  from fc have pos: "0 < assessments_remaining ent"
    using first_consumable_Some [OF fc] by (simp add: consumable_def)
  from assms have d: "distinct (map (\<lambda>e. (user_id e, product_id e)) (items t))"
    and u: "\<forall>e \<in> set (items t). units_ok e" by (simp_all add: ledger_inv_def)
  have "distinct (map (\<lambda>e. (user_id e, product_id e)) (consumed_items now uid aid ent (items t)))"
    using d by (simp add: consumed_items_keys)
  moreover have "\<forall>e \<in> set (consumed_items now uid aid ent (items t)). units_ok e"
    using u units_ok_set_consumed [OF pos] by (auto simp: consumed_items_def)
  ultimately show ?thesis unfolding ledger_inv_def it by blast
next
  case False
  then have "items (snd (consume_assessment F now uid m aid t)) = items t"
    by (simp add: consume_assessment_items)
  with assms show ?thesis by (simp add: ledger_inv_def)
qed

lemma apply_op_preserves_inv: "ledger_inv t \<Longrightarrow> ledger_inv (apply_op op t)"
  by (cases op) (simp_all add: grant_preserves_inv consume_preserves_inv)

lemma run_preserves_inv: "ledger_inv t \<Longrightarrow> ledger_inv (run ops t)"
  by (induction ops arbitrary: t) (simp_all add: apply_op_preserves_inv)

lemma distinct_keys_unique:
  "distinct (map (\<lambda>e. (user_id e, product_id e)) xs) \<Longrightarrow> a \<in> set xs \<Longrightarrow> b \<in> set xs \<Longrightarrow>
   user_id a = user_id b \<Longrightarrow> product_id a = product_id b \<Longrightarrow> a = b"
  by (metis (mono_tags, lifting) distinct_map inj_onD)


lemma consumed_items_decremented:
  assumes d: "distinct (map (\<lambda>e. (user_id e, product_id e)) xs)"
    and ent: "ent \<in> set xs" "user_id ent = uid"
  shows "consumed_items now uid aid ent xs = map (\<lambda>e. if e = ent then decremented now aid ent else e) xs"
proof -
  have "\<And>e. e \<in> set xs \<Longrightarrow> same_key uid (product_id ent) e \<longleftrightarrow> e = ent"
    using distinct_keys_unique [OF d _ ent(1)] ent(2) by (auto simp: same_key_def)
  then show ?thesis
    by (auto simp: consumed_items_def decremented_def set_consumed_def)
qed

lemma strip_Nil_iff: "strip tx = [] \<longleftrightarrow> (\<forall>c \<in> set tx. py_isspace c)"
proof
  assume "strip tx = []"
  then have all: "\<forall>x \<in> set (dropWhile py_isspace tx). py_isspace x"
    by (simp add: strip_def dropWhile_eq_Nil_conv)
  have "dropWhile py_isspace tx = []"
  proof (rule ccontr)
    assume ne: "dropWhile py_isspace tx \<noteq> []"
    then have "\<not> py_isspace (hd (dropWhile py_isspace tx))" by (rule hd_dropWhile)
    moreover from ne have "hd (dropWhile py_isspace tx) \<in> set (dropWhile py_isspace tx)" by simp
    ultimately show False using all by blast
  qed
  then show "\<forall>c \<in> set tx. py_isspace c" by (simp add: dropWhile_eq_Nil_conv)
next
  assume "\<forall>c \<in> set tx. py_isspace c"
  then show "strip tx = []" by (auto simp: strip_def dest: set_dropWhileD)
qed

lemma grant_entitlement_blank:
  "strip tx = [] \<Longrightarrow> grant_entitlement F now uid pid tx plat rd t = (Inr False, t)"
  by (simp add: grant_entitlement_def)

lemma grant_entitlement_duplicate:
  assumes "entitlements_with tx t \<noteq> []" and "QueryTransaction \<notin> F"
  shows "fst (grant_entitlement F now uid pid tx plat rd t) = Inr False"
    and "items (snd (grant_entitlement F now uid pid tx plat rd t)) = items t"
  using assms
  by (auto simp: grant_entitlement_def get_entitlement_by_transaction_def table_query_index_def
      received_def split: list.splits)

lemma grant_entitlement_fresh:
  assumes "strip tx \<noteq> []" and "entitlements_with tx t = []"
    and "QueryTransaction \<notin> F" and "PutItem \<notin> F"
  shows "fst (grant_entitlement F now uid pid tx plat rd t) = Inr True"
    and "entitlements_with tx (snd (grant_entitlement F now uid pid tx plat rd t))
         = [new_entitlement now uid pid tx plat rd]"
proof -
  from assms have nz: "tx \<noteq> []" by (auto simp: strip_def)
  from assms nz show r: "fst (grant_entitlement F now uid pid tx plat rd t) = Inr True"
    by (simp add: grant_entitlement_def get_entitlement_by_transaction_def table_query_index_def
        table_put_item_def)
  have "transaction_id (new_entitlement now uid pid tx plat rd) = tx"
    by (simp add: new_entitlement_def Let_def)
  moreover from assms(2) have "filter (\<lambda>e. transaction_id e = tx) (items t) = []"
    by (simp add: entitlements_with_def)
  then have "filter (\<lambda>e. transaction_id e = tx) (filter (\<lambda>x. \<not> same_key uid pid x) (items t)) = []"
    by (auto simp: filter_empty_conv)
  ultimately show "entitlements_with tx (snd (grant_entitlement F now uid pid tx plat rd t))
         = [new_entitlement now uid pid tx plat rd]"
    using r by (simp add: entitlements_with_def grant_entitlement_items)
qed

subsection \<open>Duplicate grants\<close>

text \<open>
  C1, on the code.  The guard of \<open>grant_entitlement\<close> against a transaction that was
  already processed looks the transaction id up among the stored items, and it misses
  two cases.  First, \<open>put_item\<close> replaces the item of the same user and product, so
  after a second purchase of the product (\<open>tx-2\<close>) no item carries \<open>tx-1\<close> any more,
  and a third grant with \<open>tx-1\<close> returns true: both grants with \<open>tx-1\<close> succeed.
  Second, when the lookup in the transaction index raises,
  \<open>get_entitlement_by_transaction\<close> answers \<open>None\<close>, and a grant with a recorded
  transaction id (\<open>tx-dup\<close>) returns true and leaves two entitlements with that id.
\<close>

theorem grant_with_processed_transaction:
  "fst (grant_entitlement {} 1000 ''user-1'' ''com.ieltsaiprep.academic.writing'' ''tx-1'' ''ios''
          None empty_table) = Inr True
   \<and> entitlements_with ''tx-1''
       (run [Grant {} 1000 ''user-1'' ''com.ieltsaiprep.academic.writing'' ''tx-1'' ''ios'' None,
             Grant {} 2000 ''user-1'' ''com.ieltsaiprep.academic.writing'' ''tx-2'' ''ios'' None]
          empty_table) = []
   \<and> fst (grant_entitlement {} 3000 ''user-1'' ''com.ieltsaiprep.academic.writing'' ''tx-1'' ''ios''
            None
            (run [Grant {} 1000 ''user-1'' ''com.ieltsaiprep.academic.writing'' ''tx-1'' ''ios'' None,
                  Grant {} 2000 ''user-1'' ''com.ieltsaiprep.academic.writing'' ''tx-2'' ''ios'' None]
               empty_table)) = Inr True
   \<and> length (entitlements_with ''tx-dup''
       (run [Grant {} 1000 ''user-1'' ''com.ieltsaiprep.academic.writing'' ''tx-dup'' ''ios'' None]
          empty_table)) = 1
   \<and> fst (grant_entitlement {QueryTransaction} 2000 ''user-2'' ''com.ieltsaiprep.academic.writing''
            ''tx-dup'' ''ios'' None
            (run [Grant {} 1000 ''user-1'' ''com.ieltsaiprep.academic.writing'' ''tx-dup'' ''ios'' None]
               empty_table)) = Inr True
   \<and> length (entitlements_with ''tx-dup''
       (run [Grant {} 1000 ''user-1'' ''com.ieltsaiprep.academic.writing'' ''tx-dup'' ''ios'' None,
             Grant {QueryTransaction} 2000 ''user-2'' ''com.ieltsaiprep.academic.writing''
               ''tx-dup'' ''ios'' None]
          empty_table)) = 2"
  by (simp add: grant_entitlement_def get_entitlement_by_transaction_def table_query_index_def
      table_put_item_def received_def new_entitlement_def same_key_def entitlements_with_def
      empty_table_def strip_def py_isspace_def Let_def)

subsection \<open>Units of an entitlement\<close>

text \<open>
  C2, on the code.  A user buys the product \<open>academic_writing\<close> (\<open>tx-1\<close>) and
  consumes one unit, so the stored entitlement has one unit left.  When the user buys
  the product again (\<open>tx-2\<close>), \<open>put_item\<close> replaces the stored item: the units
  remaining under the user and product go from 1 to 2, and the unit left from the
  first purchase is gone.  When instead the grant with \<open>tx-1\<close> is repeated while the
  lookup in the transaction index raises, the entitlement of that same transaction goes
  from 1 unit to 2.
\<close>

theorem units_increase_on_second_grant:
  "units_stored ''user-1'' ''academic_writing''
     (run [Grant {} 1000 ''user-1'' ''academic_writing'' ''tx-1'' ''ios'' None,
           Consume {} 2000 ''user-1'' ''academic_writing'' ''assessment-1'']
        empty_table) = [1]
   \<and> units_stored ''user-1'' ''academic_writing''
     (run [Grant {} 1000 ''user-1'' ''academic_writing'' ''tx-1'' ''ios'' None,
           Consume {} 2000 ''user-1'' ''academic_writing'' ''assessment-1'',
           Grant {} 3000 ''user-1'' ''academic_writing'' ''tx-2'' ''ios'' None]
        empty_table) = [2]
   \<and> units_of_transaction ''tx-1''
     (run [Grant {} 1000 ''user-1'' ''academic_writing'' ''tx-1'' ''ios'' None,
           Consume {} 2000 ''user-1'' ''academic_writing'' ''assessment-1'']
        empty_table) = [1]
   \<and> units_of_transaction ''tx-1''
     (run [Grant {} 1000 ''user-1'' ''academic_writing'' ''tx-1'' ''ios'' None,
           Consume {} 2000 ''user-1'' ''academic_writing'' ''assessment-1'',
           Grant {QueryTransaction} 3000 ''user-1'' ''academic_writing'' ''tx-1''
             ''ios'' None]
        empty_table) = [2]"
  by (simp add: grant_entitlement_def consume_assessment_def get_entitlement_by_transaction_def
      table_query_index_def table_put_item_def table_query_def table_update_item_def
      partition_items_def entitlements_with_def received_def new_entitlement_def same_key_def
      module_matches_def consumable_def strip_def py_isspace_def lower_def lower_char_def
      product_assessments_def PRODUCT_ASSESSMENTS_def set_consumed_def empty_table_def
      units_stored_def units_of_transaction_def Let_def)

subsection \<open>Module types and product ids\<close>

text \<open>
  C3.  The scenario of the claim, run on the code: the grant of
  \<open>com.ieltsaiprep.academic.writing\<close> to a user without entitlements succeeds, and
  \<open>check_entitlement\<close> for \<open>academic_writing\<close> then reports no access and zero units,
  because \<open>academic_writing\<close> (with an underscore) is not a substring of the product id
  (with a dot).
\<close>

theorem check_access_after_grant:
  "fst (grant_entitlement {} 1000 ''user-1'' ''com.ieltsaiprep.academic.writing'' ''tx-001''
          ''ios'' None empty_table) = Inr True
   \<and> str_in ''academic_writing'' (lower ''com.ieltsaiprep.academic.writing'') = False
   \<and> fst (check_entitlement {} ''user-1'' ''academic_writing''
            (run [Grant {} 1000 ''user-1'' ''com.ieltsaiprep.academic.writing'' ''tx-001''
                    ''ios'' None] empty_table))
       = Inr \<lparr>has_access = False, access_remaining = 0, products = [], total_products = 0\<rparr>"
  by (simp add: grant_entitlement_def check_entitlement_def get_entitlement_by_transaction_def
      table_query_index_def table_put_item_def table_query_def partition_items_def
      entitlements_with_def received_def new_entitlement_def same_key_def module_matches_def
      strip_def py_isspace_def lower_def lower_char_def product_assessments_def
      PRODUCT_ASSESSMENTS_def empty_table_def Let_def)

subsection \<open>Which entitlement a consumption takes\<close>

text \<open>
  C4, as stated, at a concrete input.  The user buys \<open>com.ieltsaiprep.general.writing\<close>
  at instant 1000 and \<open>com.ieltsaiprep.academic.writing\<close> at instant 2000; both
  entitlements are active, match the module type \<open>writing\<close> and have two units.  A
  consumption for \<open>writing\<close> takes its unit from the entitlement bought at 2000; the
  older one keeps both units.
\<close>

theorem consume_oldest_first_counterexample:
  "units_by_purchase
     (run [Grant {} 1000 ''user-1'' ''com.ieltsaiprep.general.writing'' ''tx-001'' ''ios'' None,
           Grant {} 2000 ''user-1'' ''com.ieltsaiprep.academic.writing'' ''tx-002'' ''ios'' None]
        empty_table) = [(1000, 2), (2000, 2)]
   \<and> fst (consume_assessment {} 3000 ''user-1'' ''writing'' ''assessment-1''
       (run [Grant {} 1000 ''user-1'' ''com.ieltsaiprep.general.writing'' ''tx-001'' ''ios'' None,
             Grant {} 2000 ''user-1'' ''com.ieltsaiprep.academic.writing'' ''tx-002'' ''ios'' None]
          empty_table)) = Inr True
   \<and> units_by_purchase
     (run [Grant {} 1000 ''user-1'' ''com.ieltsaiprep.general.writing'' ''tx-001'' ''ios'' None,
           Grant {} 2000 ''user-1'' ''com.ieltsaiprep.academic.writing'' ''tx-002'' ''ios'' None,
           Consume {} 3000 ''user-1'' ''writing'' ''assessment-1'']
        empty_table) = [(1000, 2), (2000, 1)]"
  by (simp add: grant_entitlement_def consume_assessment_def get_entitlement_by_transaction_def
      table_query_index_def table_put_item_def table_query_def table_update_item_def
      partition_items_def entitlements_with_def received_def new_entitlement_def same_key_def
      module_matches_def consumable_def strip_def py_isspace_def lower_def lower_char_def
      product_assessments_def PRODUCT_ASSESSMENTS_def set_consumed_def empty_table_def
      units_by_purchase_def Let_def)

lemma first_consumable_None:
  "first_consumable m xs = None \<longleftrightarrow> (\<forall>x \<in> set xs. \<not> consumable m x)"
  by (induction xs) auto

text \<open>
  C4, amended.  When the store answers, \<open>consume_assessment\<close> takes one unit from the
  first entitlement, in the order in which the store returns the user's items
  (ascending product id, the sort key of the table), that is active, matches the module
  type and has units left, and from no other; purchase timestamps play no part.  When
  the user has no such entitlement it returns false and changes nothing.
\<close>

theorem consume_takes_first_in_query_order:
  assumes "ledger_inv t" and "QueryUser \<notin> F" and "UpdateItem \<notin> F"
  shows "sorted (map product_id (partition_items uid t))
     \<and> set (partition_items uid t) = {e \<in> set (items t). user_id e = uid}
     \<and> (\<forall>pre ent post.
           partition_items uid t = pre @ ent # post \<and> consumable m ent
             \<and> (\<forall>x \<in> set pre. \<not> consumable m x) \<longrightarrow>
           fst (consume_assessment F now uid m aid t) = Inr True
           \<and> items (snd (consume_assessment F now uid m aid t))
               = map (\<lambda>e. if e = ent then decremented now aid ent else e) (items t))
     \<and> ((\<forall>x \<in> set (partition_items uid t). \<not> consumable m x) \<longrightarrow>
           fst (consume_assessment F now uid m aid t) = Inr False
           \<and> items (snd (consume_assessment F now uid m aid t)) = items t)"
proof (intro conjI allI impI)
  show "sorted (map product_id (partition_items uid t))" by (rule partition_items_sorted)
  show "set (partition_items uid t) = {e \<in> set (items t). user_id e = uid}"
    by (rule partition_items_set)
next
  fix pre ent post
  assume a: "partition_items uid t = pre @ ent # post \<and> consumable m ent
             \<and> (\<forall>x \<in> set pre. \<not> consumable m x)"
  then have fc: "first_consumable m (partition_items uid t) = Some ent"
    unfolding first_consumable_split by blast
  with assms show r: "fst (consume_assessment F now uid m aid t) = Inr True"
    by (simp add: consume_assessment_True)
  from a have "ent \<in> set (partition_items uid t)" by simp
  then have ent: "ent \<in> set (items t)" "user_id ent = uid"
    by (simp_all add: partition_items_set)
  from assms(1) have d: "distinct (map (\<lambda>e. (user_id e, product_id e)) (items t))"
    by (simp add: ledger_inv_def)
  from r fc have "items (snd (consume_assessment F now uid m aid t))
      = consumed_items now uid aid ent (items t)"
    by (simp add: consume_assessment_items)
  then show "items (snd (consume_assessment F now uid m aid t))
               = map (\<lambda>e. if e = ent then decremented now aid ent else e) (items t)"
    by (simp add: consumed_items_decremented [OF d ent])
next
  assume "\<forall>x \<in> set (partition_items uid t). \<not> consumable m x"
  then have fc: "first_consumable m (partition_items uid t) = None"
    by (simp add: first_consumable_None)
  then have nt: "fst (consume_assessment F now uid m aid t) \<noteq> Inr True"
    by (simp add: consume_assessment_True)
  with consume_assessment_returns [of F now uid m aid t]
  show "fst (consume_assessment F now uid m aid t) = Inr False" by auto
  from nt show "items (snd (consume_assessment F now uid m aid t)) = items t"
    by (simp add: consume_assessment_items)
qed

theorem consume_takes_first_in_query_order_witness:
  "ledger_inv
     (run [Grant {} 1000 ''user-1'' ''com.ieltsaiprep.general.writing'' ''tx-001'' ''ios'' None,
           Grant {} 2000 ''user-1'' ''com.ieltsaiprep.academic.writing'' ''tx-002'' ''ios'' None]
        empty_table)
   \<and> partition_items ''user-1''
       (run [Grant {} 1000 ''user-1'' ''com.ieltsaiprep.general.writing'' ''tx-001'' ''ios'' None,
             Grant {} 2000 ''user-1'' ''com.ieltsaiprep.academic.writing'' ''tx-002'' ''ios'' None]
          empty_table)
       = [] @ new_entitlement 2000 ''user-1'' ''com.ieltsaiprep.academic.writing'' ''tx-002'' ''ios'' None
            # [new_entitlement 1000 ''user-1'' ''com.ieltsaiprep.general.writing'' ''tx-001'' ''ios'' None]
   \<and> consumable ''writing''
       (new_entitlement 2000 ''user-1'' ''com.ieltsaiprep.academic.writing'' ''tx-002'' ''ios'' None)
   \<and> fst (consume_assessment {} 3000 ''user-1'' ''writing'' ''assessment-1''
       (run [Grant {} 1000 ''user-1'' ''com.ieltsaiprep.general.writing'' ''tx-001'' ''ios'' None,
             Grant {} 2000 ''user-1'' ''com.ieltsaiprep.academic.writing'' ''tx-002'' ''ios'' None]
          empty_table)) = Inr True"
proof -
  let ?t = "run [Grant {} 1000 ''user-1'' ''com.ieltsaiprep.general.writing'' ''tx-001'' ''ios'' None,
           Grant {} 2000 ''user-1'' ''com.ieltsaiprep.academic.writing'' ''tx-002'' ''ios'' None]
        empty_table"
  let ?ent = "new_entitlement 2000 ''user-1'' ''com.ieltsaiprep.academic.writing'' ''tx-002'' ''ios'' None"
  let ?old = "new_entitlement 1000 ''user-1'' ''com.ieltsaiprep.general.writing'' ''tx-001'' ''ios'' None"
  have e: "ledger_inv empty_table" by (simp add: ledger_inv_def empty_table_def)
  have i: "ledger_inv ?t" using e by (rule run_preserves_inv)
  have p: "partition_items ''user-1'' ?t = [] @ ?ent # [?old]"
    by (simp add: grant_entitlement_def get_entitlement_by_transaction_def
        table_query_index_def table_put_item_def partition_items_def entitlements_with_def
        received_def new_entitlement_def same_key_def strip_def py_isspace_def
        product_assessments_def PRODUCT_ASSESSMENTS_def empty_table_def Let_def)
  have c: "consumable ''writing'' ?ent"
    by (simp add: consumable_def module_matches_def new_entitlement_def lower_def lower_char_def
        product_assessments_def PRODUCT_ASSESSMENTS_def Let_def)
  have q: "QueryUser \<notin> {}" "UpdateItem \<notin> {}" by simp_all
  from consume_takes_first_in_query_order [OF i q, of "''user-1''" "''writing''" 3000 "''assessment-1''"]
  have "partition_items ''user-1'' ?t = [] @ ?ent # [?old] \<and> consumable ''writing'' ?ent
          \<and> (\<forall>x \<in> set []. \<not> consumable ''writing'' x) \<longrightarrow>
        fst (consume_assessment {} 3000 ''user-1'' ''writing'' ''assessment-1'' ?t) = Inr True"
    by blast
  with i p c show ?thesis by simp
qed

subsection \<open>Errors of the store\<close>

text \<open>
  C5, as stated, at concrete inputs.  With \<open>put_item\<close> raising, \<open>grant_entitlement\<close>
  returns the normal value false; with the user query raising, \<open>check_entitlement\<close>
  returns the no-access result and \<open>consume_assessment\<close> returns false.  No error reaches
  the caller.
\<close>

theorem store_error_propagation_counterexample:
  "fst (grant_entitlement {PutItem} 1000 ''user-1'' ''com.ieltsaiprep.academic.writing''
          ''tx-001'' ''ios'' None empty_table) = Inr False
   \<and> fst (check_entitlement {QueryUser} ''user-1'' ''academic_writing'' empty_table)
       = Inr \<lparr>has_access = False, access_remaining = 0, products = [], total_products = 0\<rparr>
   \<and> fst (consume_assessment {QueryUser} 1000 ''user-1'' ''academic_writing'' ''assessment-1''
            empty_table) = Inr False"
  by (simp add: grant_entitlement_def check_entitlement_def consume_assessment_def
      get_entitlement_by_transaction_def table_query_index_def table_put_item_def
      table_query_def entitlements_with_def received_def no_access_def empty_table_def
      strip_def py_isspace_def)

text \<open>
  C5, amended.  Every ledger operation returns a normal value whatever requests to the
  store raise: the error is caught inside the operation and does not reach the caller.
  When \<open>put_item\<close> raises, grant returns false; when the user query raises, check-access
  returns the no-access result (no access, zero units, no products) and consume returns
  false; when \<open>update_item\<close> raises, consume returns false.  In each of these cases the
  stored items are unchanged and each request was sent to the store once: the operation
  does not retry.
\<close>

theorem store_errors_are_caught:
  "(\<exists>b. fst (grant_entitlement F now uid pid tx plat rd t) = Inr b)
   \<and> (\<exists>a. fst (check_entitlement F uid m t) = Inr a)
   \<and> (\<exists>b. fst (consume_assessment F now uid m aid t) = Inr b)
   \<and> (strip tx \<noteq> [] \<and> PutItem \<in> F \<and> (QueryTransaction \<in> F \<or> entitlements_with tx t = []) \<longrightarrow>
        grant_entitlement F now uid pid tx plat rd t
          = (Inr False, t\<lparr>calls := calls t @ [QueryTransaction, PutItem]\<rparr>))
   \<and> (QueryUser \<in> F \<longrightarrow>
        check_entitlement F uid m t = (Inr no_access, t\<lparr>calls := calls t @ [QueryUser]\<rparr>)
        \<and> consume_assessment F now uid m aid t = (Inr False, t\<lparr>calls := calls t @ [QueryUser]\<rparr>))
   \<and> (QueryUser \<notin> F \<and> UpdateItem \<in> F \<and> (\<exists>x \<in> set (partition_items uid t). consumable m x) \<longrightarrow>
        consume_assessment F now uid m aid t
          = (Inr False, t\<lparr>calls := calls t @ [QueryUser, UpdateItem]\<rparr>))"
proof (intro conjI impI)
  show "\<exists>b. fst (grant_entitlement F now uid pid tx plat rd t) = Inr b"
    by (rule grant_entitlement_returns)
  show "\<exists>a. fst (check_entitlement F uid m t) = Inr a"
    by (auto simp: check_entitlement_def table_query_def split: prod.splits)
  show "\<exists>b. fst (consume_assessment F now uid m aid t) = Inr b"
    by (rule consume_assessment_returns)
next
  assume a: "strip tx \<noteq> [] \<and> PutItem \<in> F \<and> (QueryTransaction \<in> F \<or> entitlements_with tx t = [])"
  then have "tx \<noteq> []" by (auto simp: strip_def)
  with a show "grant_entitlement F now uid pid tx plat rd t
          = (Inr False, t\<lparr>calls := calls t @ [QueryTransaction, PutItem]\<rparr>)"
    by (auto simp: grant_entitlement_def get_entitlement_by_transaction_def table_query_index_def
        table_put_item_def received_def)
next
  assume "QueryUser \<in> F"
  then show "check_entitlement F uid m t = (Inr no_access, t\<lparr>calls := calls t @ [QueryUser]\<rparr>)"
    by (simp add: check_entitlement_def table_query_def received_def)
next
  assume "QueryUser \<in> F"
  then show "consume_assessment F now uid m aid t = (Inr False, t\<lparr>calls := calls t @ [QueryUser]\<rparr>)"
    by (simp add: consume_assessment_def table_query_def received_def)
next
  assume a: "QueryUser \<notin> F \<and> UpdateItem \<in> F \<and> (\<exists>x \<in> set (partition_items uid t). consumable m x)"
  then have "first_consumable m (partition_items uid t) \<noteq> None"
    by (simp add: first_consumable_None)
  then obtain ent where "first_consumable m (partition_items uid t) = Some ent" by auto
  with a show "consume_assessment F now uid m aid t
          = (Inr False, t\<lparr>calls := calls t @ [QueryUser, UpdateItem]\<rparr>)"
    by (simp add: consume_assessment_def table_query_def table_update_item_def received_def Let_def)
qed

theorem store_errors_are_caught_witness:
  "strip ''tx-001'' \<noteq> [] \<and> PutItem \<in> {PutItem} \<and> entitlements_with ''tx-001'' empty_table = []
   \<and> grant_entitlement {PutItem} 1000 ''user-1'' ''academic_writing'' ''tx-001'' ''ios'' None empty_table
       = (Inr False, empty_table\<lparr>calls := calls empty_table @ [QueryTransaction, PutItem]\<rparr>)
   \<and> QueryUser \<in> {QueryUser}
   \<and> check_entitlement {QueryUser} ''user-1'' ''academic_writing'' empty_table
       = (Inr no_access, empty_table\<lparr>calls := calls empty_table @ [QueryUser]\<rparr>)"
proof -
  have a: "strip ''tx-001'' \<noteq> []" by (simp add: strip_def py_isspace_def)
  have b: "entitlements_with ''tx-001'' empty_table = []"
    by (simp add: entitlements_with_def empty_table_def)
  from a b
    store_errors_are_caught [of "{PutItem}" 1000 "''user-1''" "''academic_writing''" "''tx-001''"
      "''ios''" None empty_table]
    store_errors_are_caught [of "{QueryUser}" _ "''user-1''" _ _ _ _ empty_table "''academic_writing''"]
  show ?thesis by simp
qed

subsection \<open>Units granted\<close>



section \<open>Properties of the regional router\<close>

subsection \<open>Auxiliary facts\<close>

lemma empty_not_region: "[] \<notin> fst ` set VERTEX_AI_REGIONS"
  by (simp add: VERTEX_AI_REGIONS_def)

lemma empty_not_region_entry: "([], info) \<notin> set VERTEX_AI_REGIONS"
  by (simp add: VERTEX_AI_REGIONS_def)

lemma default_region_in_catalog: "default_region \<in> fst ` set VERTEX_AI_REGIONS"
  by (simp add: VERTEX_AI_REGIONS_def default_region_def)

lemma country_targets_in_catalog:
  "\<forall>kv \<in> set COUNTRY_TO_REGION. snd kv \<in> fst ` set VERTEX_AI_REGIONS"
  by (simp add: COUNTRY_TO_REGION_def VERTEX_AI_REGIONS_def)

lemma country_region_in_catalog:
  assumes "map_of COUNTRY_TO_REGION k = Some r"
  shows "r \<in> fst ` set VERTEX_AI_REGIONS"
proof -
  from assms have "(k, r) \<in> set COUNTRY_TO_REGION" by (rule map_of_SomeD)
  then have "snd (k, r) \<in> fst ` set VERTEX_AI_REGIONS"
    by (rule bspec [OF country_targets_in_catalog])
  then show ?thesis by simp
qed

lemma no_empty_country: "map_of COUNTRY_TO_REGION [] = None"
  by (simp add: COUNTRY_TO_REGION_def)

lemma region_entry_in_catalog:
  assumes "r \<in> fst ` set VERTEX_AI_REGIONS"
  shows "\<exists>info. region_entry r = Inr (r, info) \<and> map_of VERTEX_AI_REGIONS r = Some info"
proof -
  from assms have "map_of VERTEX_AI_REGIONS r \<noteq> None" by (simp add: map_of_eq_None_iff)
  then show ?thesis by (auto simp: region_entry_def)
qed

lemma priority1_Some: "priority1 now rh pref = Some p \<longleftrightarrow> preferred_ok now rh pref p"
  by (auto simp: priority1_def preferred_ok_def empty_not_region_entry split: option.splits)

lemma priority1_None: "priority1 now rh pref = None \<longleftrightarrow> (\<forall>p. \<not> preferred_ok now rh pref p)"
  using priority1_Some [of now rh pref] by (cases "priority1 now rh pref") auto

lemma priority2_Some: "priority2 now rh cc = Some m \<longleftrightarrow> country_ok now rh cc m"
proof
  assume "priority2 now rh cc = Some m"
  then show "country_ok now rh cc m"
    by (auto simp: priority2_def country_ok_def split: option.splits if_splits)
next
  assume "country_ok now rh cc m"
  then obtain c where c: "cc = Some c" "map_of COUNTRY_TO_REGION (upper c) = Some m"
      "is_region_healthy now m rh"
    by (auto simp: country_ok_def)
  from c(2) have "m \<in> fst ` set VERTEX_AI_REGIONS" by (rule country_region_in_catalog)
  with empty_not_region have m: "m \<noteq> []" by blast
  from c(2) no_empty_country have "c \<noteq> []" by (auto simp: upper_def)
  with c m show "priority2 now rh cc = Some m" by (simp add: priority2_def)
qed

lemma priority2_None: "priority2 now rh cc = None \<longleftrightarrow> (\<forall>m. \<not> country_ok now rh cc m)"
  using priority2_Some [of now rh cc] by (cases "priority2 now rh cc") auto

lemma priority3_None: "priority3 now rh ip = None"
  by (simp add: priority3_def detect_region_from_ip_def split: option.splits)

lemma no_ip_region: "\<not> ip_ok now rh ip d"
  by (simp add: ip_ok_def detect_region_from_ip_def)

lemma healthy_regions_set:
  "set (healthy_regions now rh) = {r \<in> fst ` set VERTEX_AI_REGIONS. is_region_healthy now r rh}"
  by (auto simp: healthy_regions_def)

lemma random_choice_member:
  "xs \<noteq> [] \<Longrightarrow> \<exists>x \<in> set xs. random_choice rnd xs = Inr x"
  by (simp add: random_choice_def)

lemma fallback_result:
  assumes "priority1 now rh pref = None" and "priority2 now rh cc = None"
  shows "\<exists>r info. get_optimal_region now rnd rh cc ip pref = Inr (r, info)
          \<and> map_of VERTEX_AI_REGIONS r = Some info
          \<and> (is_region_healthy now default_region rh \<longrightarrow> r = default_region)
          \<and> (\<not> is_region_healthy now default_region rh \<longrightarrow>
               ((\<exists>h \<in> fst ` set VERTEX_AI_REGIONS. is_region_healthy now h rh) \<longrightarrow>
                  r \<in> fst ` set VERTEX_AI_REGIONS \<and> is_region_healthy now r rh)
               \<and> ((\<forall>h \<in> fst ` set VERTEX_AI_REGIONS. \<not> is_region_healthy now h rh) \<longrightarrow>
                    r = default_region))"
proof -
  from region_entry_in_catalog [OF default_region_in_catalog]
  obtain dinfo where d: "region_entry default_region = Inr (default_region, dinfo)"
      "map_of VERTEX_AI_REGIONS default_region = Some dinfo" by blast
  show ?thesis
  proof (cases "is_region_healthy now default_region rh")
    case True
    with assms d have "get_optimal_region now rnd rh cc ip pref = Inr (default_region, dinfo)"
      by (simp add: get_optimal_region_def priority3_None)
    with d True show ?thesis by simp
  next
    case False
    show ?thesis
    proof (cases "healthy_regions now rh = []")
      case True
      with assms d False
      have g: "get_optimal_region now rnd rh cc ip pref = Inr (default_region, dinfo)"
        by (simp add: get_optimal_region_def priority3_None)
      from True have "set (healthy_regions now rh) = {}" by simp
      then have "\<forall>h \<in> fst ` set VERTEX_AI_REGIONS. \<not> is_region_healthy now h rh"
        unfolding healthy_regions_set by blast
      with g d False show ?thesis by auto
    next
      case ne: False
      from random_choice_member [OF ne, of rnd]
      obtain x where x: "x \<in> set (healthy_regions now rh)"
          "random_choice rnd (healthy_regions now rh) = Inr x" by blast
      from x(1) have xc: "x \<in> fst ` set VERTEX_AI_REGIONS" and xh: "is_region_healthy now x rh"
        by (simp_all add: healthy_regions_set)
      from region_entry_in_catalog [OF xc]
      obtain xinfo where xi: "region_entry x = Inr (x, xinfo)"
          "map_of VERTEX_AI_REGIONS x = Some xinfo" by blast
      from assms False ne x(2) xi(1)
      have "get_optimal_region now rnd rh cc ip pref = Inr (x, xinfo)"
        by (simp add: get_optimal_region_def priority3_None)
      with xi(2) xc xh False show ?thesis by auto
    qed
  qed
qed

subsection \<open>Resolution order\<close>

text \<open>
  C6.  For every preferred region, country code, IP address, health table, instant and
  random draw, \<open>get_optimal_region\<close> returns (it never raises) a region of the catalog
  together with its catalog entry, and the region is: the preferred region, if that is
  in the catalog and healthy; otherwise the region the country code maps to, if healthy;
  otherwise a healthy region derived from the IP address, if there is one (the
  geolocation stub never yields one); otherwise the default region \<open>us-central1\<close>, if
  healthy; otherwise some healthy region of the catalog, if there is one; otherwise,
  with no healthy region at all, the default region.
\<close>

theorem region_selection_order:
  "\<exists>r info. get_optimal_region now rnd rh cc ip pref = Inr (r, info)
     \<and> map_of VERTEX_AI_REGIONS r = Some info
     \<and> (\<forall>p. preferred_ok now rh pref p \<longrightarrow> r = p)
     \<and> ((\<forall>p. \<not> preferred_ok now rh pref p) \<longrightarrow>
          (\<forall>m. country_ok now rh cc m \<longrightarrow> r = m)
          \<and> ((\<forall>m. \<not> country_ok now rh cc m) \<longrightarrow>
               (\<forall>d. ip_ok now rh ip d \<longrightarrow> r = d)
               \<and> ((\<forall>d. \<not> ip_ok now rh ip d) \<longrightarrow>
                    (is_region_healthy now default_region rh \<longrightarrow> r = default_region)
                    \<and> (\<not> is_region_healthy now default_region rh \<longrightarrow>
                         ((\<exists>h \<in> fst ` set VERTEX_AI_REGIONS. is_region_healthy now h rh) \<longrightarrow>
                            r \<in> fst ` set VERTEX_AI_REGIONS \<and> is_region_healthy now r rh)
                         \<and> ((\<forall>h \<in> fst ` set VERTEX_AI_REGIONS. \<not> is_region_healthy now h rh) \<longrightarrow>
                              r = default_region)))))
     \<and> ((\<forall>h \<in> fst ` set VERTEX_AI_REGIONS. \<not> is_region_healthy now h rh) \<longrightarrow> r = default_region)"
proof (cases "priority1 now rh pref")
  case (Some p)
  then have ok: "preferred_ok now rh pref p" by (simp add: priority1_Some)
  then have pc: "p \<in> fst ` set VERTEX_AI_REGIONS" and ph: "is_region_healthy now p rh"
    and pp: "pref = Some p" by (simp_all add: preferred_ok_def)
  from region_entry_in_catalog [OF pc]
  obtain info where i: "region_entry p = Inr (p, info)" "map_of VERTEX_AI_REGIONS p = Some info"
    by blast
  from Some i(1) have g: "get_optimal_region now rnd rh cc ip pref = Inr (p, info)"
    by (simp add: get_optimal_region_def)
  have u: "\<forall>q. preferred_ok now rh pref q \<longrightarrow> p = q"
    using pp by (simp add: preferred_ok_def)
  have n1: "\<not> (\<forall>q. \<not> preferred_ok now rh pref q)" using ok by blast
  have n2: "\<not> (\<forall>h \<in> fst ` set VERTEX_AI_REGIONS. \<not> is_region_healthy now h rh)"
    using pc ph by blast
  show ?thesis
    by (rule exI [of _ p], rule exI [of _ info], intro conjI impI)
      (use g i(2) u n1 n2 in blast)+
next
  case None
  then have np: "\<forall>p. \<not> preferred_ok now rh pref p" by (simp add: priority1_None)
  show ?thesis
  proof (cases "priority2 now rh cc")
    case (Some m)
    then have ok: "country_ok now rh cc m" by (simp add: priority2_Some)
    then obtain c where c: "cc = Some c" "map_of COUNTRY_TO_REGION (upper c) = Some m"
      and mh: "is_region_healthy now m rh" by (auto simp: country_ok_def)
    from c(2) have mc: "m \<in> fst ` set VERTEX_AI_REGIONS" by (rule country_region_in_catalog)
    from region_entry_in_catalog [OF mc]
    obtain info where i: "region_entry m = Inr (m, info)" "map_of VERTEX_AI_REGIONS m = Some info"
      by blast
    from None Some i(1) have g: "get_optimal_region now rnd rh cc ip pref = Inr (m, info)"
      by (simp add: get_optimal_region_def)
    have u: "\<forall>q. country_ok now rh cc q \<longrightarrow> m = q"
      using c by (auto simp: country_ok_def)
    have n1: "\<not> (\<forall>q. \<not> country_ok now rh cc q)" using ok by blast
    have n2: "\<not> (\<forall>h \<in> fst ` set VERTEX_AI_REGIONS. \<not> is_region_healthy now h rh)"
      using mc mh by blast
    show ?thesis
      by (rule exI [of _ m], rule exI [of _ info], intro conjI impI)
        (use g i(2) u n1 n2 np in blast)+
  next
    case None2: None
    from fallback_result [OF None None2, of rnd ip]
    obtain r info where f: "get_optimal_region now rnd rh cc ip pref = Inr (r, info)"
      "map_of VERTEX_AI_REGIONS r = Some info"
      "is_region_healthy now default_region rh \<longrightarrow> r = default_region"
      "\<not> is_region_healthy now default_region rh \<longrightarrow>
               ((\<exists>h \<in> fst ` set VERTEX_AI_REGIONS. is_region_healthy now h rh) \<longrightarrow>
                  r \<in> fst ` set VERTEX_AI_REGIONS \<and> is_region_healthy now r rh)
               \<and> ((\<forall>h \<in> fst ` set VERTEX_AI_REGIONS. \<not> is_region_healthy now h rh) \<longrightarrow>
                    r = default_region)"
      by blast
    have nc: "\<forall>m. \<not> country_ok now rh cc m" using None2 by (simp add: priority2_None)
    have nd: "(\<forall>h \<in> fst ` set VERTEX_AI_REGIONS. \<not> is_region_healthy now h rh) \<longrightarrow> r = default_region"
      using f(3,4) by blast
    have ni: "\<forall>d. ip_ok now rh ip d \<longrightarrow> r = d" using no_ip_region by blast
    show ?thesis
      by (rule exI [of _ r], rule exI [of _ info], intro conjI impI)
        (use f np nc nd ni in blast)+
  qed
qed

lemma initial_health_southeast:
  "started_router ''asia-southeast1''
     = Some \<lparr>health_status = ''healthy'', last_success = 0, failure_count = 0, latency_ms = 35\<rparr>"
  by (simp add: started_router_def initialize_health_status_def VERTEX_AI_REGIONS_def)

theorem region_selection_order_witness:
  "country_ok 1000000 started_router (Some ''sg'') ''asia-southeast1''
   \<and> (\<forall>p. \<not> preferred_ok 1000000 started_router None p)
   \<and> get_optimal_region 1000000 7 started_router (Some ''sg'') (Some ''203.0.113.9'') None
       = Inr (''asia-southeast1'',
              \<lparr>continent = ''Asia'', location = ''Singapore'', latency_base = 35, health = ''healthy''\<rparr>)"
proof -
  have u: "map_of COUNTRY_TO_REGION (upper ''sg'') = Some ''asia-southeast1''"
    by code_simp
  have c: "country_ok 1000000 started_router (Some ''sg'') ''asia-southeast1''"
    by (simp add: country_ok_def u is_region_healthy_def initial_health_southeast
        thirty_minutes_def)
  have p: "\<forall>p. \<not> preferred_ok 1000000 started_router None p"
    by (simp add: preferred_ok_def)
  have v: "map_of VERTEX_AI_REGIONS ''asia-southeast1''
      = Some \<lparr>continent = ''Asia'', location = ''Singapore'', latency_base = 35, health = ''healthy''\<rparr>"
    by (simp add: VERTEX_AI_REGIONS_def)
  from region_selection_order [of 1000000 7 started_router "Some ''sg''"
      "Some ''203.0.113.9''" None] c p v
  have "get_optimal_region 1000000 7 started_router (Some ''sg'') (Some ''203.0.113.9'') None
       = Inr (''asia-southeast1'',
              \<lparr>continent = ''Asia'', location = ''Singapore'', latency_base = 35, health = ''healthy''\<rparr>)"
    by auto
  with c p show ?thesis by simp
qed

subsection \<open>Failure threshold and recovery\<close>

lemma mark_failure_entry:
  assumes "rh r = Some h"
  shows "mark_failure r err rh r
     = Some (h\<lparr>failure_count := failure_count h + 1,
              health_status := (if failure_count h + 1 \<ge> 5 then ''unhealthy'' else health_status h)\<rparr>)"
  using assms by (simp add: mark_failure_def Let_def)

lemma fold_mark_failure:
  assumes "rh r = Some h"
  shows "\<exists>h'. fold (mark_failure r) errs rh r = Some h'
           \<and> failure_count h' = failure_count h + int (length errs)
           \<and> last_success h' = last_success h
           \<and> (failure_count h' < 5 \<longrightarrow> health_status h' = health_status h)"
  using assms
proof (induction errs arbitrary: rh h)
  case Nil
  then show ?case by simp
next
  case (Cons err errs)
  let ?h1 = "h\<lparr>failure_count := failure_count h + 1,
              health_status := (if failure_count h + 1 \<ge> 5 then ''unhealthy'' else health_status h)\<rparr>"
  from Cons.prems have s: "mark_failure r err rh r = Some ?h1" by (rule mark_failure_entry)
  from Cons.IH [where rh = "mark_failure r err rh" and h = ?h1] s obtain h' where h': "fold (mark_failure r) errs (mark_failure r err rh) r = Some h'"
    "failure_count h' = failure_count ?h1 + int (length errs)"
    "last_success h' = last_success ?h1"
    "failure_count h' < 5 \<longrightarrow> health_status h' = health_status ?h1" by blast
  have "fold (mark_failure r) (err # errs) rh r = Some h'" using h'(1) by simp
  moreover have "failure_count h' = failure_count h + int (length (err # errs))"
    using h'(2) by simp
  moreover have "last_success h' = last_success h" using h'(3) by simp
  moreover have "failure_count h' < 5 \<longrightarrow> health_status h' = health_status h"
    using h'(2,4) by auto
  ultimately show ?case by blast
qed

text \<open>
  C7.  For a region with a health entry (every catalog region has one) whose failure
  count is 0, whose status is healthy and whose last success is at most 30 minutes
  before the instant \<open>now\<close> of the query: after fewer than 5 consecutive \<open>mark_failure\<close>
  calls \<open>_is_region_healthy\<close> is still true; after exactly 5 it is false, at every
  instant; after one subsequent \<open>mark_success\<close> at instant \<open>t\<close> the entry has failure
  count 0, status healthy and last success \<open>t\<close>, and \<open>_is_region_healthy\<close> is true
  again at every instant up to 30 minutes after \<open>t\<close>.
\<close>

theorem region_health_threshold:
  assumes "rh r = Some h" and "failure_count h = 0" and "health_status h = ''healthy''"
    and "now - last_success h \<le> thirty_minutes" and "length errs = 5"
  shows "is_region_healthy now r rh
     \<and> (\<forall>k < 5. is_region_healthy now r (fold (mark_failure r) (take k errs) rh))
     \<and> \<not> is_region_healthy later r (fold (mark_failure r) errs rh)
     \<and> mark_success t r latency (fold (mark_failure r) errs rh) r
         = Some \<lparr>health_status = ''healthy'', last_success = t, failure_count = 0,
                 latency_ms = latency\<rparr>
     \<and> (later - t \<le> thirty_minutes \<longrightarrow>
          is_region_healthy later r (mark_success t r latency (fold (mark_failure r) errs rh)))"
proof (intro conjI allI impI)
  from assms show "is_region_healthy now r rh" by (simp add: is_region_healthy_def)
next
  fix k :: nat
  assume k: "k < 5"
  from fold_mark_failure [where rh = rh and r = r and h = h and errs = "take k errs"] assms(1)
  obtain h' where h': "fold (mark_failure r) (take k errs) rh r = Some h'"
    "failure_count h' = failure_count h + int (length (take k errs))"
    "last_success h' = last_success h"
    "failure_count h' < 5 \<longrightarrow> health_status h' = health_status h" by blast
  from k assms(2,5) h'(2) have "failure_count h' < 5" by simp
  with h' assms(3,4) show "is_region_healthy now r (fold (mark_failure r) (take k errs) rh)"
    by (simp add: is_region_healthy_def)
next
  from fold_mark_failure [where rh = rh and r = r and h = h and errs = errs] assms(1)
  obtain h' where h': "fold (mark_failure r) errs rh r = Some h'"
    "failure_count h' = failure_count h + int (length errs)" by blast
  with assms(2,5) have five: "failure_count h' = 5" by simp
  with h'(1) show "\<not> is_region_healthy later r (fold (mark_failure r) errs rh)"
    by (simp add: is_region_healthy_def)
  from h'(1) show s: "mark_success t r latency (fold (mark_failure r) errs rh) r
         = Some \<lparr>health_status = ''healthy'', last_success = t, failure_count = 0,
                 latency_ms = latency\<rparr>"
    by (simp add: mark_success_def)
  assume "later - t \<le> thirty_minutes"
  with s show "is_region_healthy later r (mark_success t r latency (fold (mark_failure r) errs rh))"
    by (simp add: is_region_healthy_def)
qed

theorem region_health_threshold_witness:
  "started_router ''asia-southeast1''
     = Some \<lparr>health_status = ''healthy'', last_success = 0, failure_count = 0, latency_ms = 35\<rparr>
   \<and> (60000000 :: int) - 0 \<le> thirty_minutes
   \<and> length [''timeout'', ''timeout'', ''reset'', ''timeout'', ''quota''] = 5
   \<and> \<not> is_region_healthy 61000000 ''asia-southeast1''
         (fold (mark_failure ''asia-southeast1'') [''timeout'', ''timeout'', ''reset'', ''timeout'', ''quota'']
            started_router)
   \<and> is_region_healthy 61000000 ''asia-southeast1''
         (mark_success 60500000 ''asia-southeast1'' 42
            (fold (mark_failure ''asia-southeast1'') [''timeout'', ''timeout'', ''reset'', ''timeout'', ''quota'']
               started_router))"
proof -
  let ?h = "\<lparr>health_status = ''healthy'', last_success = 0, failure_count = 0, latency_ms = 35\<rparr>"
  have a: "started_router ''asia-southeast1'' = Some ?h"
    by (rule initial_health_southeast)
  have b: "failure_count ?h = 0" "health_status ?h = ''healthy''" by simp_all
  have c: "60000000 - last_success ?h \<le> thirty_minutes" by (simp add: thirty_minutes_def)
  have d: "length [''timeout'', ''timeout'', ''reset'', ''timeout'', ''quota''] = 5" by simp
  have e: "(61000000 :: int) - 60500000 \<le> thirty_minutes" by (simp add: thirty_minutes_def)
  from region_health_threshold [where rh = started_router
      and r = "''asia-southeast1''" and h = ?h and now = 60000000
      and errs = "[''timeout'', ''timeout'', ''reset'', ''timeout'', ''quota'']"
      and later = 61000000 and t = 60500000 and latency = 42] a b c d e
  show ?thesis by simp
qed

section \<open>Properties of the live session\<close>

subsection \<open>Timeout budget\<close>

text \<open>
  C8, as stated, at a concrete input.  A connected session whose caller passed callbacks
  and no WebSocket connection id, 841 seconds after its start: the part-transition check
  returns false and leaves the session exactly as it was; no timeout warning is emitted
  (the only event of the session is the opening of its remote session).
\<close>

theorem timeout_warning_counterexample:
  "is_connected callback_session
   \<and> lambda_timeout_warning_seconds callback_session = 840
   \<and> 841000000 - start_time callback_session > 840 * 1000000
   \<and> check_and_transition_parts eager_workflow {} 841000000 2 callback_session
       = (Inr False, callback_session)
   \<and> trace callback_session = [RemoteOpened 1 ''gemini-2.5-flash-lite'' ''part 1 prompt'']"
  by (simp add: callback_session_def connect_def new_session_def emit_def
      send_websocket_message_def truthy_def check_and_transition_parts_def
      check_lambda_timeout_def Let_def)

text \<open>
  C8, amended.  For every session whose ceiling is the constructor's 840 seconds, once
  more than 840 seconds have passed since its start, a part-transition check returns
  false and changes nothing in the session: no model switch, no part transition, no
  close of the remote session, \<open>is_connected\<close> as before.  It sends a timeout warning
  through the WebSocket sink, which posts it when the session has an API Gateway client
  and a connection id (the post may fail) and does nothing otherwise.
\<close>

theorem timeout_refuses_transition:
  assumes "lambda_timeout_warning_seconds s = 840"
    and "now - start_time s > 840 * 1000000"
  shows "check_and_transition_parts W F now fresh s
     = (Inr False,
        s\<lparr>trace := trace s @
             (if apigw_client s \<and> truthy (websocket_connection_id s)
              then [if PostToConnection \<in> F then WsPostFailed TimeoutWarning
                    else WsPosted TimeoutWarning]
              else [])\<rparr>)"
  using assms
  by (simp add: check_and_transition_parts_def check_lambda_timeout_def
      send_websocket_message_def emit_def)

theorem timeout_refuses_transition_witness:
  "lambda_timeout_warning_seconds websocket_session = 840
   \<and> 841000000 - start_time websocket_session > 840 * 1000000
   \<and> check_and_transition_parts eager_workflow {} 841000000 2 websocket_session
       = (Inr False,
          websocket_session\<lparr>trace := trace websocket_session @ [WsPosted TimeoutWarning]\<rparr>)"
proof -
  have a: "lambda_timeout_warning_seconds websocket_session = 840"
    by (simp add: websocket_session_def connect_def new_session_def emit_def
        send_websocket_message_def truthy_def Let_def)
  have b: "841000000 - start_time websocket_session > 840 * 1000000"
    by (simp add: websocket_session_def connect_def new_session_def emit_def
        send_websocket_message_def truthy_def Let_def)
  have c: "apigw_client websocket_session \<and> truthy (websocket_connection_id websocket_session)"
    by (simp add: websocket_session_def connect_def new_session_def emit_def
        send_websocket_message_def truthy_def Let_def)
  from timeout_refuses_transition [OF a b, of eager_workflow "{}" 2] a b c
  show ?thesis by simp
qed

subsection \<open>Closing twice\<close>

lemma close_raises:
  assumes "remote_session s = Some h" and "CloseSession \<in> F"
  shows "fst (close W F now s) = Inl (RemoteError CloseSession)"
  using assms by (simp add: close_def Let_def)

lemma close_completes:
  assumes "remote_session s = Some h" and "CloseSession \<notin> F"
  shows "close W F now s
     = (Inr (),
        s\<lparr>router_health :=
            (case session_region s of
               None \<Rightarrow> router_health s
             | Some r \<Rightarrow>
                 if regional_router s \<and> r \<noteq> []
                 then mark_success now r
                        (close_latency (get_assessment_summary W (workflow_manager s)))
                        (router_health s)
                 else router_health s),
          trace := trace s
            @ ((if apigw_client s \<and> truthy (websocket_connection_id s)
                then [if PostToConnection \<in> F
                      then WsPostFailed (AssessmentComplete (get_assessment_summary W (workflow_manager s)))
                      else WsPosted (AssessmentComplete (get_assessment_summary W (workflow_manager s)))]
                else [])
               @ (if response_task s then [TaskCancelled] else []))
            @ [RemoteClosed h],
          is_connected := False\<rparr>)"
  using assms
  by (simp add: close_def Let_def send_websocket_message_def emit_def split: option.splits)

text \<open>
  C9, as stated, at a concrete input.  A connected WebSocket session is closed at
  instant 600000000 and the close completes; a second close at 700000000 again posts
  the summary, cancels the response task and closes the remote session, and again
  reports a success to the router, whose entry for the region now carries the instant
  of the second close.
\<close>

theorem close_twice_counterexample:
  "fst (close eager_workflow {} 600000000 websocket_session) = Inr ()
   \<and> fst (close eager_workflow {} 700000000
            (snd (close eager_workflow {} 600000000 websocket_session))) = Inr ()
   \<and> trace (snd (close eager_workflow {} 700000000
                   (snd (close eager_workflow {} 600000000 websocket_session))))
       = trace (snd (close eager_workflow {} 600000000 websocket_session))
         @ [WsPosted (AssessmentComplete \<lparr>duration_seconds = Some 600, cost_breakdown_total = 0\<rparr>),
            TaskCancelled, RemoteClosed 1]
   \<and> map_option last_success
        (router_health (snd (close eager_workflow {} 600000000 websocket_session)) ''us-central1'')
       = Some 600000000
   \<and> map_option last_success
        (router_health (snd (close eager_workflow {} 700000000
                              (snd (close eager_workflow {} 600000000 websocket_session))))
           ''us-central1'')
       = Some 700000000"
  by (simp add: websocket_session_def connect_def new_session_def emit_def
      send_websocket_message_def truthy_def close_def close_latency_def eager_workflow_def
      mark_success_def started_router_def initialize_health_status_def VERTEX_AI_REGIONS_def
      Let_def)

text \<open>
  C9, amended.  After a completed \<open>close\<close> the session is marked not connected and keeps
  its remote session handle.  For a session without a remote session handle a second
  \<open>close\<close> changes nothing and returns normally.  For a session with a handle a second
  \<open>close\<close> repeats the first: it reports a success for the region to the router again
  (when the session has a router and a region), posts the summary over the WebSocket
  again (when the session has one), and calls close on the remote session again; it
  leaves the session not connected, and it raises exactly when that remote close raises.
\<close>

theorem close_after_close:
  assumes "close W F now s = (Inr (), s1)"
  shows "is_connected s1 = False \<and> remote_session s1 = remote_session s
     \<and> (remote_session s = None \<longrightarrow> close W F2 now2 s1 = (Inr (), s1))
     \<and> (\<forall>h. remote_session s = Some h \<and> CloseSession \<notin> F2 \<longrightarrow>
          (\<exists>s2 evs. close W F2 now2 s1 = (Inr (), s2) \<and> is_connected s2 = False
             \<and> trace s2 = trace s1 @ evs @ [RemoteClosed h]
             \<and> (\<forall>r. regional_router s \<and> session_region s = Some r \<and> r \<noteq> [] \<longrightarrow>
                  router_health s2
                    = mark_success now2 r
                        (close_latency (get_assessment_summary W (workflow_manager s)))
                        (router_health s1))
             \<and> (apigw_client s \<and> truthy (websocket_connection_id s) \<and> PostToConnection \<notin> F2 \<longrightarrow>
                  WsPosted (AssessmentComplete (get_assessment_summary W (workflow_manager s)))
                    \<in> set evs)))
     \<and> (\<forall>h. remote_session s = Some h \<and> CloseSession \<in> F2 \<longrightarrow>
          fst (close W F2 now2 s1) = Inl (RemoteError CloseSession))"
proof (cases "remote_session s")
  case None
  with assms have "s1 = s\<lparr>is_connected := False\<rparr>" by (simp add: close_def)
  with None show ?thesis by (simp add: close_def)
next
  case (Some h)
  have nF: "CloseSession \<notin> F"
  proof
    assume "CloseSession \<in> F"
    with Some have "fst (close W F now s) = Inl (RemoteError CloseSession)" by (rule close_raises)
    with assms show False by simp
  qed
  have "\<exists>rh' tr'. s1 = s\<lparr>router_health := rh', trace := tr', is_connected := False\<rparr>"
    using assms unfolding close_completes [OF Some nF] by auto
  then obtain rh' tr' where s1: "s1 = s\<lparr>router_health := rh', trace := tr', is_connected := False\<rparr>"
    by blast
  have f: "remote_session s1 = Some h" "workflow_manager s1 = workflow_manager s"
      "session_region s1 = session_region s" "regional_router s1 = regional_router s"
      "apigw_client s1 = apigw_client s" "websocket_connection_id s1 = websocket_connection_id s"
      "is_connected s1 = False"
    by (simp_all add: s1 Some)
  have raise: "\<forall>h'. remote_session s = Some h' \<and> CloseSession \<in> F2 \<longrightarrow>
          fst (close W F2 now2 s1) = Inl (RemoteError CloseSession)"
    using close_raises [OF f(1)] by blast
  have again: "\<forall>h'. remote_session s = Some h' \<and> CloseSession \<notin> F2 \<longrightarrow>
          (\<exists>s2 evs. close W F2 now2 s1 = (Inr (), s2) \<and> is_connected s2 = False
             \<and> trace s2 = trace s1 @ evs @ [RemoteClosed h']
             \<and> (\<forall>r. regional_router s \<and> session_region s = Some r \<and> r \<noteq> [] \<longrightarrow>
                  router_health s2
                    = mark_success now2 r
                        (close_latency (get_assessment_summary W (workflow_manager s)))
                        (router_health s1))
             \<and> (apigw_client s \<and> truthy (websocket_connection_id s) \<and> PostToConnection \<notin> F2 \<longrightarrow>
                  WsPosted (AssessmentComplete (get_assessment_summary W (workflow_manager s)))
                    \<in> set evs))"
  proof (intro allI impI)
    fix h'
    assume a: "remote_session s = Some h' \<and> CloseSession \<notin> F2"
    with Some have hh: "h' = h" and nF2: "CloseSession \<notin> F2" by simp_all
    let ?sm = "get_assessment_summary W (workflow_manager s)"
    let ?evs = "(if apigw_client s \<and> truthy (websocket_connection_id s)
                then [if PostToConnection \<in> F2
                      then WsPostFailed (AssessmentComplete ?sm)
                      else WsPosted (AssessmentComplete ?sm)]
                else [])
               @ (if response_task s1 then [TaskCancelled] else [])"
    let ?s2 = "snd (close W F2 now2 s1)"
    have c2: "close W F2 now2 s1 = (Inr (), ?s2)"
      by (simp add: close_completes [OF f(1) nF2])
    have t2: "trace ?s2 = trace s1 @ ?evs @ [RemoteClosed h']"
      by (simp add: close_completes [OF f(1) nF2] f hh)
    have i2: "is_connected ?s2 = False"
      by (simp add: close_completes [OF f(1) nF2])
    have r2: "\<forall>r. regional_router s \<and> session_region s = Some r \<and> r \<noteq> [] \<longrightarrow>
                  router_health ?s2 = mark_success now2 r (close_latency ?sm) (router_health s1)"
      by (simp add: close_completes [OF f(1) nF2] f)
    have w2: "apigw_client s \<and> truthy (websocket_connection_id s) \<and> PostToConnection \<notin> F2 \<longrightarrow>
                  WsPosted (AssessmentComplete ?sm) \<in> set ?evs"
      by simp
    from c2 i2 t2 r2 w2
    show "\<exists>s2 evs. close W F2 now2 s1 = (Inr (), s2) \<and> is_connected s2 = False
             \<and> trace s2 = trace s1 @ evs @ [RemoteClosed h']
             \<and> (\<forall>r. regional_router s \<and> session_region s = Some r \<and> r \<noteq> [] \<longrightarrow>
                  router_health s2
                    = mark_success now2 r
                        (close_latency (get_assessment_summary W (workflow_manager s)))
                        (router_health s1))
             \<and> (apigw_client s \<and> truthy (websocket_connection_id s) \<and> PostToConnection \<notin> F2 \<longrightarrow>
                  WsPosted (AssessmentComplete (get_assessment_summary W (workflow_manager s)))
                    \<in> set evs)"
      by blast
  qed
  from f(1,7) Some raise again show ?thesis by simp
qed

theorem close_after_close_witness:
  "close eager_workflow {} 600000000 websocket_session
     = (Inr (), snd (close eager_workflow {} 600000000 websocket_session))
   \<and> is_connected (snd (close eager_workflow {} 600000000 websocket_session)) = False
   \<and> remote_session (snd (close eager_workflow {} 600000000 websocket_session)) = Some 1
   \<and> remote_session websocket_session = Some 1"
proof -
  have r: "remote_session websocket_session = Some 1"
    by (simp add: websocket_session_def connect_def new_session_def emit_def
        send_websocket_message_def truthy_def Let_def)
  have "fst (close eager_workflow {} 600000000 websocket_session) = Inr ()"
    by (simp add: close_completes [OF r])
  then have h: "close eager_workflow {} 600000000 websocket_session
     = (Inr (), snd (close eager_workflow {} 600000000 websocket_session))"
    by (metis prod.collapse)
  from close_after_close [OF h] h r show ?thesis by simp
qed

end
